theory Spec2Isabelle
  imports Complex_Main "HOL-Library.AList"
begin

section \<open>Python values used by \<open>lib/dataset.py\<close>\<close>

text \<open>
  The development embeds \<open>Dataset\<close> of \<open>lib/dataset.py\<close>. Python floats are read as
  the real numbers they denote. Arithmetic on them is exact in the model, except
  where a rounded result decides which rows a loader returns: there the double
  operation is written \<open>fl w\<close> of the exact result. A \<open>dict\<close> is an association list
  (\<open>map_of\<close> reads it, \<open>AList.update\<close> writes it, iteration follows the list); a
  Python dict has no repeated key, which theorems state as \<open>distinct (map fst d)\<close>
  where they need it. Every exception the source can raise is a value of \<open>error\<close>.
  Of the console output, the lines \<open>align_modality\<close> prints are kept; what the loaders
  and \<open>load_features\<close> print is left out.
\<close>

datatype error =
    KeyError | IndexError | TypeError | ValueError | ZeroDivisionError
  | NameError | AttributeError | IOError

type_synonym 'a dict = "(string \<times> 'a) list"

text \<open>A feature tuple \<open>(feat_start, feat_end, feat_val)\<close>; a loader result is a list of them or \<open>None\<close>.\<close>

type_synonym feat_tuple = "real \<times> real \<times> real list"
type_synonym feats = "feat_tuple list option"

text \<open>\<open>d[k]\<close>\<close>

definition getitem :: "'a dict \<Rightarrow> string \<Rightarrow> error + 'a" where
  "getitem d k = (case map_of d k of None \<Rightarrow> Inl KeyError | Some v \<Rightarrow> Inr v)"

text \<open>\<open>s.split(c)\<close> for a one-character separator, and \<open>s.strip()\<close>.\<close>

fun split :: "char \<Rightarrow> string \<Rightarrow> string list" where
  "split c [] = [[]]"
| "split c (x # xs) =
     (if x = c then [] # split c xs
      else (case split c xs of [] \<Rightarrow> [[x]] | w # ws \<Rightarrow> (x # w) # ws))"

definition is_space :: "char \<Rightarrow> bool" where
  "is_space c \<longleftrightarrow> c \<in> set [CHR '' '', CHR 0x09, CHR 0x0A, CHR 0x0B, CHR 0x0C, CHR 0x0D]"

definition strip :: "string \<Rightarrow> string" where
  "strip s = rev (dropWhile is_space (rev (dropWhile is_space s)))"

text \<open>
  \<open>int(s)\<close> on a string: surrounding blanks, an optional sign, decimal digits;
  \<open>ValueError\<close> on anything else.
\<close>

definition digit_val :: "char \<Rightarrow> nat option" where
  "digit_val c =
     (let n = (of_char c :: nat) in if 48 \<le> n \<and> n \<le> 57 then Some (n - 48) else None)"

fun digits_val :: "nat \<Rightarrow> string \<Rightarrow> nat option" where
  "digits_val acc [] = Some acc"
| "digits_val acc (c # cs) =
     (case digit_val c of None \<Rightarrow> None | Some d \<Rightarrow> digits_val (10 * acc + d) cs)"

definition py_int :: "string \<Rightarrow> error + int" where
  "py_int s =
     (let t = strip s;
          (neg, ds) = (case t of [] \<Rightarrow> (False, [])
                       | c # r \<Rightarrow> if c = CHR ''-'' then (True, r)
                                  else if c = CHR ''+'' then (False, r) else (False, t))
      in if ds = [] then Inl ValueError
         else (case digits_val 0 ds of None \<Rightarrow> Inl ValueError
               | Some n \<Rightarrow> Inr (if neg then - int n else int n)))"

text \<open>\<open>str(n)\<close> on an integer.\<close>

definition digit_char :: "nat \<Rightarrow> char" where
  "digit_char d = ''0123456789'' ! d"

function str_nat :: "nat \<Rightarrow> string" where
  "str_nat n = (if n < 10 then [digit_char n] else str_nat (n div 10) @ [digit_char (n mod 10)])"
  by pat_completeness auto
termination
  by (relation "measure id") auto

declare str_nat.simps [simp del]

definition py_str :: "int \<Rightarrow> string" where
  "py_str i = (if i < 0 then CHR ''-'' # str_nat (nat (- i)) else str_nat (nat i))"

section \<open>numpy on one-dimensional arrays\<close>

definition np_zeros :: "nat \<Rightarrow> real list" where
  "np_zeros n = replicate n 0"

definition np_multiply :: "real list \<Rightarrow> real \<Rightarrow> real list" where
  "np_multiply v w = map (\<lambda>x. x * w) v"

text \<open>\<open>np.add\<close> broadcasts an array of length one and raises on any other mismatch.\<close>

definition np_add :: "real list \<Rightarrow> real list \<Rightarrow> error + real list" where
  "np_add a b =
     (if length a = length b then Inr (map2 (+) a b)
      else if length b = 1 then Inr (map (\<lambda>x. x + hd b) a)
      else if length a = 1 then Inr (map (\<lambda>y. hd a + y) b)
      else Inl ValueError)"

section \<open>\<open>Dataset.align_modality\<close>\<close>

text \<open>
  The state of one call: \<open>warning_hist\<close> and the lines printed so far. A printed line
  is kept as the three values the message is formatted from.
\<close>

type_synonym diag = "string \<times> string \<times> string"

record wstate =
  warning_hist :: "(string \<times> string) set"
  printed :: "diag list"

text \<open>\<open>len(feats[0][2])\<close>\<close>

definition first_len :: "feats \<Rightarrow> error + nat" where
  "first_len f =
     (case f of None \<Rightarrow> Inl TypeError
      | Some [] \<Rightarrow> Inl IndexError
      | Some ((fs, fe, v) # r) \<Rightarrow> Inr (length v))"

text \<open>The loop \<open>for feat_tuple in feats\<close> of lines 732-741, with the accumulator \<open>aligned_feat\<close>.\<close>

fun accumulate :: "real \<Rightarrow> real \<Rightarrow> real \<Rightarrow> feat_tuple list \<Rightarrow> real list \<Rightarrow> error + real list" where
  "accumulate start_interval end_interval time_interval [] aligned_feat = Inr aligned_feat"
| "accumulate start_interval end_interval time_interval ((feat_start, feat_end, feat_val) # r) aligned_feat =
     (if feat_start < end_interval \<and> feat_end \<ge> start_interval then
        (if time_interval = 0 then Inl ZeroDivisionError
         else let feat_weight = (min end_interval feat_end - max start_interval feat_start) / time_interval;
                  weighted_feat = np_multiply feat_val feat_weight
              in (case np_add aligned_feat weighted_feat of
                    Inl e \<Rightarrow> Inl e
                  | Inr a \<Rightarrow> accumulate start_interval end_interval time_interval r a))
      else accumulate start_interval end_interval time_interval r aligned_feat)"

text \<open>Lines 730-745: from the stream in use to the aligned tuple of one grid interval.\<close>

definition resample :: "real \<times> real \<Rightarrow> feats \<Rightarrow> error + feat_tuple" where
  "resample iv f =
     (let (start_interval, end_interval) = iv;
          time_interval = end_interval - start_interval
      in case first_len f of Inl e \<Rightarrow> Inl e
         | Inr n \<Rightarrow>
             (case accumulate start_interval end_interval time_interval (the f) (np_zeros n) of
                Inl e \<Rightarrow> Inl e
              | Inr a \<Rightarrow> Inr (start_interval, end_interval, a)))"

text \<open>\<open>modality_feat_dict[video_id][segment_id]\<close>\<close>

definition getitem2 :: "'a dict dict \<Rightarrow> string \<Rightarrow> string \<Rightarrow> error + 'a" where
  "getitem2 d video_id segment_id =
     (case getitem d video_id of Inl e \<Rightarrow> Inl e | Inr segs \<Rightarrow> getitem segs segment_id)"

text \<open>\<open>modality_feat_dict[video_id][str(int(segment_id) - 1)]\<close>\<close>

definition getitem_prev :: "'a dict dict \<Rightarrow> string \<Rightarrow> string \<Rightarrow> error + 'a" where
  "getitem_prev d video_id segment_id =
     (case getitem d video_id of Inl e \<Rightarrow> Inl e
      | Inr segs \<Rightarrow>
          (case py_int segment_id of Inl e \<Rightarrow> Inl e
           | Inr n \<Rightarrow> getitem segs (py_str (n - 1))))"

text \<open>
  Lines 723-725: the message is printed, and the pair recorded, unless
  \<open>warning_hist\<close> already holds the pair.
\<close>

definition warn :: "string \<Rightarrow> string \<Rightarrow> string \<Rightarrow> wstate \<Rightarrow> wstate" where
  "warn modality video_id segment_id st =
     (if (video_id, segment_id) \<notin> warning_hist st
      then st\<lparr>warning_hist := insert (video_id, segment_id) (warning_hist st),
              printed := printed st @ [(last (split CHR ''_'' modality), video_id, segment_id)]\<rparr>
      else st)"

text \<open>
  The body of the loop over \<open>feat_intervals\<close>, lines 717-745. The lookup of line 719
  stands before the \<open>try\<close>; the bare \<open>except\<close> catches whatever the probe
  \<open>len(feats[0][2])\<close> raises.
\<close>

definition align_interval ::
  "string \<Rightarrow> feats dict dict \<Rightarrow> string \<Rightarrow> string \<Rightarrow> real \<times> real \<Rightarrow> wstate
     \<Rightarrow> (error + feat_tuple) \<times> wstate" where
  "align_interval modality modality_feat_dict video_id segment_id iv st =
     (case getitem2 modality_feat_dict video_id segment_id of
        Inl e \<Rightarrow> (Inl e, st)
      | Inr f \<Rightarrow>
          (case first_len f of
             Inr a \<Rightarrow> (resample iv f, st)
           | Inl _ \<Rightarrow>
               (let st' = warn modality video_id segment_id st
                in (case getitem_prev modality_feat_dict video_id segment_id of
                      Inl e \<Rightarrow> (Inl e, st')
                    | Inr f' \<Rightarrow> (resample iv f', st')))))"

text \<open>The loop over \<open>feat_intervals\<close> of one segment, with \<open>aligned_segment_feat\<close>.\<close>

fun align_segment ::
  "string \<Rightarrow> feats dict dict \<Rightarrow> string \<Rightarrow> string \<Rightarrow> (real \<times> real) list \<Rightarrow> feat_tuple list
     \<Rightarrow> wstate \<Rightarrow> (error + feat_tuple list) \<times> wstate" where
  "align_segment modality mfd video_id segment_id [] aligned_segment_feat st =
     (Inr aligned_segment_feat, st)"
| "align_segment modality mfd video_id segment_id (iv # ivs) aligned_segment_feat st =
     (case align_interval modality mfd video_id segment_id iv st of
        (Inl e, st') \<Rightarrow> (Inl e, st')
      | (Inr t, st') \<Rightarrow>
          align_segment modality mfd video_id segment_id ivs (aligned_segment_feat @ [t]) st')"

text \<open>The loop over the segments of one video, with \<open>aligned_video_feats\<close>.\<close>

fun align_video ::
  "string \<Rightarrow> feats dict dict \<Rightarrow> string \<Rightarrow> (real \<times> real) list dict \<Rightarrow> feat_tuple list dict
     \<Rightarrow> wstate \<Rightarrow> (error + feat_tuple list dict) \<times> wstate" where
  "align_video modality mfd video_id [] aligned_video_feats st = (Inr aligned_video_feats, st)"
| "align_video modality mfd video_id ((segment_id, feat_intervals) # segments) aligned_video_feats st =
     (case align_segment modality mfd video_id segment_id feat_intervals [] st of
        (Inl e, st') \<Rightarrow> (Inl e, st')
      | (Inr aligned_segment_feat, st') \<Rightarrow>
          align_video modality mfd video_id segments
            (AList.update segment_id aligned_segment_feat aligned_video_feats) st')"

text \<open>The loop over the videos of the grid, with \<open>aligned_feat_dict\<close>.\<close>

fun align_videos ::
  "string \<Rightarrow> feats dict dict \<Rightarrow> (real \<times> real) list dict dict \<Rightarrow> feat_tuple list dict dict
     \<Rightarrow> wstate \<Rightarrow> (error + feat_tuple list dict dict) \<times> wstate" where
  "align_videos modality mfd [] aligned_feat_dict st = (Inr aligned_feat_dict, st)"
| "align_videos modality mfd ((video_id, segments) # alignments) aligned_feat_dict st =
     (case align_video modality mfd video_id segments [] st of
        (Inl e, st') \<Rightarrow> (Inl e, st')
      | (Inr aligned_video_feats, st') \<Rightarrow>
          align_videos modality mfd alignments
            (AList.update video_id aligned_video_feats aligned_feat_dict) st')"

section \<open>The \<open>Dataset\<close> object\<close>

text \<open>
  The attributes of \<open>Dataset\<close> that the methods read and write. \<open>modalities\<close>,
  \<open>dataset_info\<close> and \<open>aligned_feature_dict\<close> do not exist before the method that sets
  them has run (\<open>None\<close> here, an \<open>AttributeError\<close> when read); \<open>feature_dict\<close>
  starts as Python's \<open>None\<close>.
\<close>

record modality_info =
  level :: string
  api_type :: string

record segment_data =
  seg_start :: real
  seg_end :: real
  seg_files :: "string dict"

record Dataset =
  timestamps :: string
  feature_dict :: "feats dict dict dict option"
  modalities :: "modality_info dict option"
  dataset_info :: "segment_data dict dict option"
  aligned_feature_dict :: "feat_tuple list dict dict dict option"

text \<open>\<open>self.feature_dict[modality]\<close>\<close>

definition feature_dict_at :: "Dataset \<Rightarrow> string \<Rightarrow> error + feats dict dict" where
  "feature_dict_at ds modality =
     (case feature_dict ds of None \<Rightarrow> Inl TypeError | Some fd \<Rightarrow> getitem fd modality)"

text \<open>\<open>self.feature_dict[modality][video_id][segment_id]\<close>\<close>

definition stream_at :: "Dataset \<Rightarrow> string \<Rightarrow> string \<Rightarrow> string \<Rightarrow> error + feats" where
  "stream_at ds modality video_id segment_id =
     (case feature_dict_at ds modality of
        Inl e \<Rightarrow> Inl e
      | Inr modality_feat_dict \<Rightarrow> getitem2 modality_feat_dict video_id segment_id)"

text \<open>
  \<open>align_modality(modality, alignments)\<close>: the result or the exception, and what the
  call printed.
\<close>

definition align_modality ::
  "Dataset \<Rightarrow> string \<Rightarrow> (real \<times> real) list dict dict
     \<Rightarrow> (error + feat_tuple list dict dict) \<times> diag list" where
  "align_modality ds modality alignments =
     (case feature_dict_at ds modality of
        Inl e \<Rightarrow> (Inl e, [])
      | Inr modality_feat_dict \<Rightarrow>
          (case align_videos modality modality_feat_dict alignments []
                  \<lparr>warning_hist = {}, printed = []\<rparr> of
             (r, st) \<Rightarrow> (r, printed st)))"

section \<open>\<open>Dataset.get_alignments\<close> and \<open>Dataset.align\<close>\<close>

text \<open>\<open>for value in features\<close>: the \<open>(start, end)\<close> of every tuple; \<open>None\<close> is not iterable.\<close>

definition timing :: "feat_tuple \<Rightarrow> real \<times> real" where
  "timing value = (fst value, fst (snd value))"

definition timings :: "feats \<Rightarrow> error + (real \<times> real) list" where
  "timings features =
     (case features of None \<Rightarrow> Inl TypeError | Some l \<Rightarrow> Inr (map timing l))"

fun segment_alignments_of ::
  "feats dict \<Rightarrow> (real \<times> real) list dict \<Rightarrow> error + (real \<times> real) list dict" where
  "segment_alignments_of [] segment_alignments = Inr segment_alignments"
| "segment_alignments_of ((segment_id, features) # segments) segment_alignments =
     (case timings features of
        Inl e \<Rightarrow> Inl e
      | Inr t \<Rightarrow> segment_alignments_of segments (AList.update segment_id t segment_alignments))"

fun alignments_of ::
  "feats dict dict \<Rightarrow> (real \<times> real) list dict dict \<Rightarrow> error + (real \<times> real) list dict dict" where
  "alignments_of [] alignments = Inr alignments"
| "alignments_of ((video_id, segments) # videos) alignments =
     (case segment_alignments_of segments [] of
        Inl e \<Rightarrow> Inl e
      | Inr segment_alignments \<Rightarrow>
          alignments_of videos (AList.update video_id segment_alignments alignments))"

definition get_alignments :: "Dataset \<Rightarrow> string \<Rightarrow> error + (real \<times> real) list dict dict" where
  "get_alignments ds modality =
     (case feature_dict_at ds modality of
        Inl e \<Rightarrow> Inl e
      | Inr aligned_feat_dict \<Rightarrow> alignments_of aligned_feat_dict [])"

text \<open>The loop \<open>for modality in modalities\<close> of \<open>align\<close>, with \<open>aligned_feat_dict\<close> and the output so far.\<close>

fun align_loop ::
  "Dataset \<Rightarrow> string \<Rightarrow> (real \<times> real) list dict dict \<Rightarrow> string list
     \<Rightarrow> feat_tuple list dict dict dict \<Rightarrow> diag list
     \<Rightarrow> (error + feat_tuple list dict dict dict) \<times> diag list" where
  "align_loop ds align_mod alignments [] aligned_feat_dict out = (Inr aligned_feat_dict, out)"
| "align_loop ds align_mod alignments (modality # ms) aligned_feat_dict out =
     (if modality = align_mod then align_loop ds align_mod alignments ms aligned_feat_dict out
      else (case align_modality ds modality alignments of
              (Inl e, p) \<Rightarrow> (Inl e, out @ p)
            | (Inr aligned_modality, p) \<Rightarrow>
                align_loop ds align_mod alignments ms
                  (AList.update modality aligned_modality aligned_feat_dict) (out @ p)))"

text \<open>
  \<open>align(align_modality)\<close>: the returned dictionary or the exception, what was printed,
  and the object afterwards.
\<close>

definition align ::
  "Dataset \<Rightarrow> string \<Rightarrow> (error + feat_tuple list dict dict dict) \<times> diag list \<times> Dataset" where
  "align ds align_mod =
     (case modalities ds of
        None \<Rightarrow> (Inl AttributeError, [], ds)
      | Some mods \<Rightarrow>
          (case get_alignments ds align_mod of
             Inl e \<Rightarrow> (Inl e, [], ds)
           | Inr alignments \<Rightarrow>
               (case align_loop ds align_mod alignments (map fst mods) [] [] of
                  (Inl e, out) \<Rightarrow> (Inl e, out, ds)
                | (Inr aligned_feat_dict, out) \<Rightarrow>
                    (Inr aligned_feat_dict, out,
                     ds\<lparr>aligned_feature_dict := Some aligned_feat_dict\<rparr>))))"

section \<open>The scenario of the specification\<close>

text \<open>
  One video \<open>v\<close> with one segment \<open>1\<close>; \<open>modality_0\<close> is the pivot with the grid
  \<open>[(0,1),(1,2)]\<close>, \<open>modality_1\<close> holds the stream to resample.
\<close>

definition scenario_dataset :: Dataset where
  "scenario_dataset =
     \<lparr>timestamps = ''absolute'',
      feature_dict = Some
        [(''modality_0'', [(''v'', [(''1'', Some [(0, 1, [7]), (1, 2, [9])])])]),
         (''modality_1'', [(''v'', [(''1'', Some [(0, 1/2, [2]), (1/2, 3/2, [4]), (3/2, 2, [6])])])])],
      modalities = Some [(''modality_0'', \<lparr>level = ''s'', api_type = ''words''\<rparr>),
                         (''modality_1'', \<lparr>level = ''s'', api_type = ''misc''\<rparr>)],
      dataset_info = None,
      aligned_feature_dict = None\<rparr>"

definition scenario_aligned :: "feat_tuple list dict dict dict" where
  "scenario_aligned = [(''modality_1'', [(''v'', [(''1'', [(0, 1, [3]), (1, 2, [5])])])])]"

section \<open>Resampling a stream onto a grid\<close>

text \<open>
  What lines 730-745 compute when one stream \<open>f\<close> is in use for every interval of a
  grid: the aligned tuples in grid order, or the first exception.
\<close>

fun resample_all :: "(real \<times> real) list \<Rightarrow> feats \<Rightarrow> error + feat_tuple list" where
  "resample_all [] f = Inr []"
| "resample_all (iv # ivs) f =
     (case resample iv f of
        Inl e \<Rightarrow> Inl e
      | Inr t \<Rightarrow> (case resample_all ivs f of Inl e \<Rightarrow> Inl e | Inr ts \<Rightarrow> Inr (t # ts)))"

section \<open>Datasets for the lookup and fallback cases\<close>

text \<open>
  \<open>two_modalities p t\<close>: one video \<open>v\<close>, the pivot \<open>modality_0\<close> with segments \<open>p\<close>
  and \<open>modality_1\<close> with segments \<open>t\<close>.
\<close>

definition two_modalities :: "feats dict \<Rightarrow> feats dict \<Rightarrow> Dataset" where
  "two_modalities p t =
     \<lparr>timestamps = ''absolute'',
      feature_dict = Some [(''modality_0'', [(''v'', p)]), (''modality_1'', [(''v'', t)])],
      modalities = Some [(''modality_0'', \<lparr>level = ''s'', api_type = ''words''\<rparr>),
                         (''modality_1'', \<lparr>level = ''s'', api_type = ''misc''\<rparr>)],
      dataset_info = None,
      aligned_feature_dict = None\<rparr>"

text \<open>The target has no entry for segment \<open>3\<close> of the pivot.\<close>

definition target_lacks_segment :: Dataset where
  "target_lacks_segment =
     two_modalities [(''2'', Some [(0, 1, [1])]), (''3'', Some [(0, 1, [1]), (1, 2, [1])])]
                    [(''2'', Some [(0, 1, [5])])]"

text \<open>The pivot has no entry for segment \<open>3\<close> of the target.\<close>

definition pivot_lacks_segment :: Dataset where
  "pivot_lacks_segment =
     two_modalities [(''2'', Some [(0, 1, [1])])]
                    [(''2'', Some [(0, 1, [5])]), (''3'', Some [(0, 1, [6])])]"

text \<open>The target's stream for segment \<open>3\<close> is empty, the one for segment \<open>2\<close> is not.\<close>

definition target_empty_segment :: Dataset where
  "target_empty_segment =
     two_modalities [(''2'', Some [(0, 1, [1])]), (''3'', Some [(0, 1, [1]), (1, 2, [1])])]
                    [(''2'', Some [(0, 1, [5])]), (''3'', Some [])]"

section \<open>The invariant of \<open>warning_hist\<close>\<close>

text \<open>No pair was printed twice, and every printed pair is recorded in \<open>warning_hist\<close>.\<close>

definition hist_inv :: "wstate \<Rightarrow> bool" where
  "hist_inv st \<longleftrightarrow> distinct (map snd (printed st)) \<and> snd ` set (printed st) \<subseteq> warning_hist st"

section \<open>Coverage of a grid interval\<close>

text \<open>
  \<open>weights\<close> lists \<open>feat_weight\<close> of lines 738-739 for the tuples that pass the test of
  lines 736-737, in stream order. The rest of this section is the vocabulary of the
  coverage statements, independent of the code: the tuples that meet the grid interval,
  the length a tuple shares with \<open>[ts, te)\<close>, streams whose tuples have positive
  duration and do not overlap one another, and the length of \<open>[cur, te)\<close> that a
  stream sorted by start time leaves uncovered, found by sweeping from \<open>cur\<close>.
\<close>

fun weights :: "real \<Rightarrow> real \<Rightarrow> feat_tuple list \<Rightarrow> real list" where
  "weights start_interval end_interval [] = []"
| "weights start_interval end_interval ((feat_start, feat_end, feat_val) # r) =
     (if feat_start < end_interval \<and> feat_end \<ge> start_interval
      then (min end_interval feat_end - max start_interval feat_start)
             / (end_interval - start_interval) # weights start_interval end_interval r
      else weights start_interval end_interval r)"

definition overlapping :: "real \<Rightarrow> real \<Rightarrow> feat_tuple list \<Rightarrow> feat_tuple list" where
  "overlapping ts te xs = filter (\<lambda>x. fst x < te \<and> fst (snd x) \<ge> ts) xs"

definition overlap :: "real \<Rightarrow> real \<Rightarrow> feat_tuple \<Rightarrow> real" where
  "overlap ts te x = max 0 (min te (fst (snd x)) - max ts (fst x))"

definition apart :: "feat_tuple \<Rightarrow> feat_tuple \<Rightarrow> bool" where
  "apart x y \<longleftrightarrow> fst (snd x) \<le> fst y \<or> fst (snd y) \<le> fst x"

fun non_overlapping :: "feat_tuple list \<Rightarrow> bool" where
  "non_overlapping [] = True"
| "non_overlapping (x # xs) =
     (fst x < fst (snd x) \<and> (\<forall>y \<in> set xs. apart x y) \<and> non_overlapping xs)"

fun uncovered :: "real \<Rightarrow> real \<Rightarrow> feat_tuple list \<Rightarrow> real" where
  "uncovered cur te [] = max 0 (te - cur)"
| "uncovered cur te (x # xs) =
     max 0 (min te (fst x) - cur) + uncovered (max cur (fst (snd x))) te xs"

definition unit_values :: "feat_tuple list \<Rightarrow> feat_tuple list" where
  "unit_values xs = map (\<lambda>x. (fst x, fst (snd x), [1])) xs"

section \<open>Files and text\<close>

text \<open>
  What the loaders take from outside the program: \<open>float(s)\<close> on a string (\<open>None\<close>
  where Python raises \<open>ValueError\<close>), \<open>open(path).readlines()\<close> (\<open>None\<close> where
  \<open>open\<close> raises \<open>IOError\<close>), the rows of \<open>loadmat(path)['features']\<close>, and
  \<open>fl\<close>, the double nearest to a real number: a double operation returns \<open>fl\<close> of
  its exact result. It is written out where the rounded result decides which rows a
  loader returns.
\<close>

record world =
  py_float :: "string \<Rightarrow> real option"
  text_files :: "string \<Rightarrow> string list option"
  mat_files :: "string \<Rightarrow> real list list option"
  fl :: "real \<Rightarrow> real"

definition bind_e :: "error + 'a \<Rightarrow> ('a \<Rightarrow> error + 'b) \<Rightarrow> error + 'b" where
  "bind_e x f = (case x of Inl e \<Rightarrow> Inl e | Inr a \<Rightarrow> f a)"

definition open_lines :: "world \<Rightarrow> string \<Rightarrow> error + string list" where
  "open_lines w filepath = (case text_files w filepath of None \<Rightarrow> Inl IOError | Some ls \<Rightarrow> Inr ls)"

text \<open>\<open>float(xs[i])\<close> and \<open>[float(val) for val in xs]\<close>\<close>

definition float_e :: "world \<Rightarrow> string \<Rightarrow> error + real" where
  "float_e w s = (case py_float w s of None \<Rightarrow> Inl ValueError | Some x \<Rightarrow> Inr x)"

definition float_at :: "world \<Rightarrow> string list \<Rightarrow> nat \<Rightarrow> error + real" where
  "float_at w xs i = (if i < length xs then float_e w (xs ! i) else Inl IndexError)"

fun floats :: "world \<Rightarrow> string list \<Rightarrow> error + real list" where
  "floats w [] = Inr []"
| "floats w (s # r) =
     bind_e (float_e w s) (\<lambda>x. bind_e (floats w r) (\<lambda>xs. Inr (x # xs)))"

text \<open>The \<open>try: float(val) except: 0.0\<close> of the facet loaders.\<close>

definition floats_or_zero :: "world \<Rightarrow> string list \<Rightarrow> real list" where
  "floats_or_zero w xs = map (\<lambda>s. case py_float w s of None \<Rightarrow> 0 | Some x \<Rightarrow> x) xs"

text \<open>
  The loop \<open>for line in f_handle.readlines()\<close> shared by the text loaders: strip the
  line, stop at the first empty one, and let \<open>row\<close>, the rest of the loop body, read
  the fields \<open>line.split(",")\<close>. \<open>row\<close> gives the tuple to append, or \<open>None\<close> when the
  line is passed over.
\<close>

fun scan_lines :: "(string list \<Rightarrow> error + feat_tuple option) \<Rightarrow> string list \<Rightarrow> error + feat_tuple list" where
  "scan_lines row [] = Inr []"
| "scan_lines row (l # ls) =
     (let line = strip l
      in if line = [] then Inr []
         else bind_e (row (split CHR '','' line))
                (\<lambda>t. bind_e (scan_lines row ls)
                   (\<lambda>ts. Inr (case t of None \<Rightarrow> ts | Some x \<Rightarrow> x # ts))))"

text \<open>\<open>start_time\<close> after the test \<open>timestamps == "relative"\<close>, and \<open>end_time\<close>.\<close>

definition start_time_of :: "string \<Rightarrow> real \<Rightarrow> real" where
  "start_time_of tstamps start = (if tstamps = ''relative'' then 0 else start)"

definition end_time_of :: "string \<Rightarrow> real \<Rightarrow> real \<Rightarrow> real" where
  "end_time_of tstamps start end = (if tstamps = ''relative'' then end - start else end)"

section \<open>The loaders\<close>

text \<open>
  The parameters \<open>timestamps\<close> and \<open>level\<close> of the loaders are written \<open>tstamps\<close>
  and \<open>lvl\<close>: the attributes of the same names hold the other two.
\<close>

text \<open>\<open>load_opensmile\<close>, lines 140-154.\<close>

definition load_opensmile :: "world \<Rightarrow> string \<Rightarrow> real \<Rightarrow> real \<Rightarrow> string \<Rightarrow> string \<Rightarrow> error + feats" where
  "load_opensmile w filepath start end tstamps lvl =
     (let start_time = start_time_of tstamps start;
          end_time = end_time_of tstamps start end
      in if lvl = ''s'' \<or> start = 0 then
           bind_e (open_lines w filepath) (\<lambda>ls.
             if ls = [] then Inl IndexError
             else bind_e (floats w (drop 1 (split CHR '','' (strip (last ls))))) (\<lambda>feat_val.
                    Inr (Some [(start_time, end_time, feat_val)])))
         else Inr None)"

text \<open>
  \<open>load_covarep\<close>, lines 169-194. \<open>int(x)\<close> truncates towards zero and a slice counts
  a negative bound from the end. The quotients \<open>start / time_period\<close> and
  \<open>end / time_period\<close> are doubles, and \<open>time_period\<close> is the double that \<open>0.01\<close> denotes.
\<close>

definition py_trunc :: "real \<Rightarrow> int" where
  "py_trunc x = (if x \<ge> 0 then \<lfloor>x\<rfloor> else \<lceil>x\<rceil>)"

definition slice_bound :: "nat \<Rightarrow> int \<Rightarrow> nat" where
  "slice_bound n i = (if i < 0 then nat (max 0 (int n + i)) else min n (nat i))"

definition py_slice :: "int \<Rightarrow> int \<Rightarrow> 'a list \<Rightarrow> 'a list" where
  "py_slice i j xs =
     (let lo = slice_bound (length xs) i; hi = slice_bound (length xs) j
      in take (hi - lo) (drop lo xs))"

fun frames :: "real \<Rightarrow> real \<Rightarrow> real list list \<Rightarrow> feat_tuple list" where
  "frames time_period feat_start [] = []"
| "frames time_period feat_start (feat # r) =
     (feat_start, feat_start + time_period, feat) # frames time_period (feat_start + time_period) r"

definition load_covarep :: "world \<Rightarrow> string \<Rightarrow> real \<Rightarrow> real \<Rightarrow> string \<Rightarrow> string \<Rightarrow> error + feats" where
  "load_covarep w filepath start end tstamps lvl =
     (let time_period = fl w (1 / 100)
      in case mat_files w filepath of
           None \<Rightarrow> Inl IOError
         | Some feats \<Rightarrow>
             (let start_time = start_time_of tstamps start
              in if lvl = ''s'' then Inr (Some (frames time_period start_time feats))
                 else (let feat_count = real (length feats);
                           start_index = py_trunc (min (fl w (start / time_period)) feat_count);
                           end_index = py_trunc (min (fl w (end / time_period)) feat_count)
                       in Inr (Some (frames time_period start_time
                                       (py_slice start_index end_index feats))))))"

text \<open>
  The test of lines 234-239, repeated at 286-291, 340-345 and 665-670. The two
  differences, \<open>feat_time\<close> and its half are doubles, each the rounded exact result.
\<close>

definition in_segment :: "world \<Rightarrow> real \<Rightarrow> real \<Rightarrow> real \<Rightarrow> real \<Rightarrow> bool" where
  "in_segment w start end feat_start feat_end =
     (let feat_time = fl w (feat_end - feat_start)
      in (feat_start \<le> start \<and> feat_end > end)
         \<or> (feat_start \<ge> start \<and> feat_end < end)
         \<or> (feat_start \<le> start \<and> fl w (start - feat_start) < fl w (feat_time / 2))
         \<or> (feat_start \<ge> start \<and> fl w (end - feat_start) > fl w (feat_time / 2)))"

text \<open>
  The two loop bodies of \<open>load_phonemes\<close>, \<open>load_embeddings\<close>, \<open>load_words\<close> and
  \<open>load_misc\<close>; the loaders differ in the columns \<open>i\<close>, \<open>j\<close> of the two times and in
  the column \<open>k\<close> where the values begin.
\<close>

definition interval_row_s :: "world \<Rightarrow> nat \<Rightarrow> nat \<Rightarrow> nat \<Rightarrow> real \<Rightarrow> string list \<Rightarrow> error + feat_tuple option" where
  "interval_row_s w i j k start_time cols =
     bind_e (float_at w cols i) (\<lambda>a.
     bind_e (float_at w cols j) (\<lambda>b.
     bind_e (floats w (drop k cols)) (\<lambda>feat_val.
       Inr (Some (a + start_time, b + start_time, feat_val)))))"

definition interval_row_v ::
  "world \<Rightarrow> nat \<Rightarrow> nat \<Rightarrow> nat \<Rightarrow> real \<Rightarrow> real \<Rightarrow> real \<Rightarrow> string list \<Rightarrow> error + feat_tuple option" where
  "interval_row_v w i j k start end start_time cols =
     bind_e (float_at w cols i) (\<lambda>feat_start.
     bind_e (float_at w cols j) (\<lambda>feat_end.
       if in_segment w start end feat_start feat_end then
         bind_e (floats w (drop k cols)) (\<lambda>feat_val.
           Inr (Some (feat_start - start + start_time, feat_end - start + start_time, feat_val)))
       else Inr None))"

definition load_phonemes :: "world \<Rightarrow> string \<Rightarrow> real \<Rightarrow> real \<Rightarrow> string \<Rightarrow> string \<Rightarrow> error + feats" where
  "load_phonemes w filepath start end tstamps lvl =
     (let start_time = start_time_of tstamps start
      in bind_e (open_lines w filepath) (\<lambda>ls.
           bind_e (if lvl = ''s'' then scan_lines (interval_row_s w 1 2 3 start_time) ls
                   else scan_lines (interval_row_v w 1 2 3 start end start_time) ls)
             (\<lambda>features. Inr (Some features))))"

definition load_embeddings :: "world \<Rightarrow> string \<Rightarrow> real \<Rightarrow> real \<Rightarrow> string \<Rightarrow> string \<Rightarrow> error + feats" where
  "load_embeddings w filepath start end tstamps lvl =
     (let start_time = start_time_of tstamps start
      in bind_e (open_lines w filepath) (\<lambda>ls.
           bind_e (if lvl = ''s'' then scan_lines (interval_row_s w 0 1 2 start_time) ls
                   else scan_lines (interval_row_v w 1 2 3 start end start_time) ls)
             (\<lambda>features. Inr (Some features))))"

definition load_words :: "world \<Rightarrow> string \<Rightarrow> real \<Rightarrow> real \<Rightarrow> string \<Rightarrow> string \<Rightarrow> error + feats" where
  "load_words w filepath start end tstamps lvl =
     (let start_time = start_time_of tstamps start
      in bind_e (open_lines w filepath) (\<lambda>ls.
           bind_e (if lvl = ''s'' then scan_lines (interval_row_s w 0 1 2 start_time) ls
                   else scan_lines (interval_row_v w 1 2 3 start end start_time) ls)
             (\<lambda>features. Inr (Some features))))"

definition load_misc :: "world \<Rightarrow> string \<Rightarrow> real \<Rightarrow> real \<Rightarrow> string \<Rightarrow> string \<Rightarrow> error + feats" where
  "load_misc w filepath start end tstamps lvl =
     (let start_time = start_time_of tstamps start
      in bind_e (open_lines w filepath) (\<lambda>ls.
           bind_e (if lvl = ''s'' then scan_lines (interval_row_s w 0 1 2 start_time) ls
                   else scan_lines (interval_row_v w 0 1 3 start end start_time) ls)
             (\<lambda>features. Inr (Some features))))"

text \<open>
  The two loop bodies of the frame loaders (\<open>load_openface\<close> and the facet loaders):
  one time in column \<open>i\<close>, the frame lasts \<open>time_period\<close>, and \<open>vals\<close> reads the values
  off the fields.
\<close>

definition frame_row_s ::
  "world \<Rightarrow> nat \<Rightarrow> (string list \<Rightarrow> error + real list) \<Rightarrow> real \<Rightarrow> real \<Rightarrow> string list \<Rightarrow> error + feat_tuple option" where
  "frame_row_s w i vals time_period start_time cols =
     bind_e (float_at w cols i) (\<lambda>a.
       (let feat_start = a + start_time; feat_end = feat_start + time_period
        in bind_e (vals cols) (\<lambda>feat_val. Inr (Some (feat_start, feat_end, feat_val)))))"

definition frame_row_v ::
  "world \<Rightarrow> nat \<Rightarrow> (string list \<Rightarrow> error + real list) \<Rightarrow> real \<Rightarrow> real \<Rightarrow> real \<Rightarrow> real \<Rightarrow> string list
     \<Rightarrow> error + feat_tuple option" where
  "frame_row_v w i vals time_period start end start_time cols =
     bind_e (float_at w cols i) (\<lambda>a.
       if a \<ge> start \<and> a < end then
         (let feat_start = a - start + start_time; feat_end = feat_start + time_period
          in bind_e (vals cols) (\<lambda>feat_val. Inr (Some (feat_start, feat_end, feat_val))))
       else Inr None)"

definition load_openface :: "world \<Rightarrow> string \<Rightarrow> real \<Rightarrow> real \<Rightarrow> string \<Rightarrow> string \<Rightarrow> error + feats" where
  "load_openface w filepath start end tstamps lvl =
     (let time_period = 333333 / 10000000;
          start_time = start_time_of tstamps start
      in bind_e (open_lines w filepath) (\<lambda>ls.
           bind_e (if lvl = ''s''
                   then scan_lines (frame_row_s w 0 (\<lambda>f. floats w (drop 1 f)) time_period start_time) (drop 1 ls)
                   else scan_lines (frame_row_v w 1 (\<lambda>f. floats w (drop 2 f)) time_period start end start_time) (drop 1 ls))
             (\<lambda>features. Inr (Some features))))"

definition load_old_facet :: "world \<Rightarrow> string \<Rightarrow> real \<Rightarrow> real \<Rightarrow> string \<Rightarrow> string \<Rightarrow> error + feats" where
  "load_old_facet w filepath start end tstamps lvl =
     (let time_period = 3333 / 100000;
          start_time = start_time_of tstamps start
      in bind_e (open_lines w filepath) (\<lambda>ls.
           bind_e (if lvl = ''s''
                   then scan_lines (frame_row_s w 0 (\<lambda>f. floats w (drop 1 f)) time_period start_time) (drop 1 ls)
                   else scan_lines (frame_row_v w 0 (\<lambda>f. floats w (drop 1 f)) time_period start end start_time) (drop 1 ls))
             (\<lambda>features. Inr (Some features))))"

definition load_facet :: "world \<Rightarrow> string \<Rightarrow> real \<Rightarrow> real \<Rightarrow> string \<Rightarrow> string \<Rightarrow> error + feats" where
  "load_facet w filepath start end tstamps lvl =
     (let time_period = 3333 / 100000;
          start_time = start_time_of tstamps start
      in bind_e (open_lines w filepath) (\<lambda>ls.
           bind_e (if lvl = ''s''
                   then scan_lines (frame_row_s w 1 (\<lambda>f. floats w (butlast (drop 2 f))) time_period start_time) (drop 1 ls)
                   else scan_lines (frame_row_v w 0 (\<lambda>f. Inr (floats_or_zero w (butlast (drop 1 f))))
                                      time_period start end start_time) (drop 1 ls))
             (\<lambda>features. Inr (Some features))))"

definition load_facet1 :: "world \<Rightarrow> string \<Rightarrow> real \<Rightarrow> real \<Rightarrow> string \<Rightarrow> string \<Rightarrow> error + feats" where
  "load_facet1 w filepath start end tstamps lvl =
     (let time_period = 3333 / 100000;
          start_time = start_time_of tstamps start
      in bind_e (open_lines w filepath) (\<lambda>ls.
           bind_e (if lvl = ''s''
                   then scan_lines (frame_row_s w 1 (\<lambda>f. floats w (butlast (drop 2 f))) time_period start_time) ls
                   else scan_lines (frame_row_v w 1 (\<lambda>f. Inr (floats_or_zero w (butlast (drop 2 f))))
                                      time_period start end start_time) ls)
             (\<lambda>features. Inr (Some features))))"

definition load_facet2 :: "world \<Rightarrow> string \<Rightarrow> real \<Rightarrow> real \<Rightarrow> string \<Rightarrow> string \<Rightarrow> error + feats" where
  "load_facet2 w filepath start end tstamps lvl =
     (let time_period = 3333 / 100000;
          start_time = start_time_of tstamps start
      in bind_e (open_lines w filepath) (\<lambda>ls.
           bind_e (if lvl = ''s''
                   then scan_lines (frame_row_s w 1 (\<lambda>f. floats w (butlast (drop 2 f))) time_period start_time) ls
                   else scan_lines (frame_row_v w 1 (\<lambda>f. Inr (floats_or_zero w (butlast (drop 2 f))))
                                      time_period start end start_time) ls)
             (\<lambda>features. Inr (Some features))))"

text \<open>\<open>Dataset.__dict__["load_" + api]\<close>\<close>

definition loader_method ::
  "string \<Rightarrow> error + (world \<Rightarrow> string \<Rightarrow> real \<Rightarrow> real \<Rightarrow> string \<Rightarrow> string \<Rightarrow> error + feats)" where
  "loader_method api =
     (if api = ''opensmile'' then Inr load_opensmile
      else if api = ''covarep'' then Inr load_covarep
      else if api = ''phonemes'' then Inr load_phonemes
      else if api = ''embeddings'' then Inr load_embeddings
      else if api = ''words'' then Inr load_words
      else if api = ''openface'' then Inr load_openface
      else if api = ''old_facet'' then Inr load_old_facet
      else if api = ''facet'' then Inr load_facet
      else if api = ''facet1'' then Inr load_facet1
      else if api = ''facet2'' then Inr load_facet2
      else if api = ''misc'' then Inr load_misc
      else Inl KeyError)"

text \<open>
  The fields of the lines a text loader reads: those before the first line that is
  empty once stripped.
\<close>

definition rows_of :: "string list \<Rightarrow> string list list" where
  "rows_of ls = map (\<lambda>l. split CHR '','' (strip l)) (takeWhile (\<lambda>l. strip l \<noteq> []) ls)"

text \<open>
  A row holds the interval record \<open>r\<close> when the columns \<open>i\<close> and \<open>j\<close> read as its two
  times and the columns from \<open>k\<close> on as its values; it holds the frame record
  \<open>(a, v)\<close> when column \<open>i\<close> reads as \<open>a\<close> and the columns from \<open>k\<close> on as \<open>v\<close>.
\<close>

definition holds_interval :: "world \<Rightarrow> nat \<Rightarrow> nat \<Rightarrow> nat \<Rightarrow> string list \<Rightarrow> feat_tuple \<Rightarrow> bool" where
  "holds_interval w i j k cols r \<longleftrightarrow>
     i < length cols \<and> j < length cols
     \<and> py_float w (cols ! i) = Some (fst r) \<and> py_float w (cols ! j) = Some (fst (snd r))
     \<and> map (py_float w) (drop k cols) = map Some (snd (snd r))"

definition holds_frame :: "world \<Rightarrow> nat \<Rightarrow> nat \<Rightarrow> string list \<Rightarrow> real \<times> real list \<Rightarrow> bool" where
  "holds_frame w i k cols r \<longleftrightarrow>
     i < length cols \<and> py_float w (cols ! i) = Some (fst r)
     \<and> map (py_float w) (drop k cols) = map Some (snd r)"

text \<open>
  A small file system for the examples. Its numbers are doubles, written as the
  fractions they are: \<open>0.1\<close>, \<open>0.2\<close>, \<open>0.3\<close>, \<open>0.4\<close>, \<open>0.29\<close>, \<open>0.31\<close> and \<open>0.01\<close> are
  not tenths and hundredths. \<open>fl\<close> lists the roundings the examples meet; every other
  operation of the examples has an exact result that is a double.
\<close>

definition example_world :: world where
  "example_world =
     \<lparr>py_float = map_of [(''0'', 0), (''1'', 1), (''2'', 2), (''5'', 5), (''0.5'', 1/2),
                          (''0.984375'', 63/64), (''-2'', -2),
                          (''0.1'', 3602879701896397 / 36028797018963968),
                          (''0.2'', 3602879701896397 / 18014398509481984),
                          (''0.4'', 3602879701896397 / 9007199254740992),
                          (''2e16'', 20000000000000000)],
      text_files = map_of [(''phonemes.csv'', [''AH,0,0.5,5'', ''B,0.5,1,2'', '''', ''C,1,2,5'']),
                           (''openface.csv'', [''frame,time,x'', ''1,0.984375,5'', ''2,1,2'']),
                           (''wide.csv'', [''W,-2,2,5'']),
                           (''tenths.csv'', [''T,0.2,0.4,5'']),
                           (''long.csv'', [''L,0.1,2e16,5'']),
                           (''pivot2.csv'', [''0,1,1'']),
                           (''pivot3.csv'', [''0,1,1'']),
                           (''target2.csv'', [''0,1,5'']),
                           (''target3.csv'', [])],
      mat_files = map_of [(''covarep.mat'',
                           [[0], [1], [2], [3], [4], [5], [6], [7], [8], [9],
                            [10], [11], [12], [13], [14], [15], [16], [17], [18], [19],
                            [20], [21], [22], [23], [24], [25], [26], [27], [28], [29],
                            [30], [31], [32]])],
      fl = (\<lambda>x. case map_of
                [(1 / 100, 5764607523034235 / 576460752303423488),
                 (5224175567749775 / 18014398509481984 / (5764607523034235 / 576460752303423488),
                  8162774324609023 / 281474976710656),
                 (5584463537939415 / 18014398509481984 / (5764607523034235 / 576460752303423488),
                  31),
                 (10000000000000000 - 3602879701896397 / 36028797018963968, 10000000000000000),
                 (20000000000000000 - 3602879701896397 / 36028797018963968, 20000000000000000)] x of
              None \<Rightarrow> x | Some y \<Rightarrow> y)\<rparr>"

text \<open>
  The inclusion rule in the words of the specification, with \<open>duration = fe - fs\<close>.
  \<open>rnd\<close> is what a subtraction or a halving does to its exact result: nothing in the
  specification's reading, the rounding to a double in the program.
\<close>

definition inclusion_rule :: "(real \<Rightarrow> real) \<Rightarrow> real \<Rightarrow> real \<Rightarrow> real \<Rightarrow> real \<Rightarrow> bool" where
  "inclusion_rule rnd start fin fs fe \<longleftrightarrow>
     (fs \<le> start \<and> fe > fin) \<or> (fs \<ge> start \<and> fe < fin)
     \<or> (fs \<le> start \<and> rnd (start - fs) < rnd (rnd (fe - fs) / 2))
     \<or> (fs \<ge> start \<and> rnd (fin - fs) > rnd (rnd (fe - fs) / 2))"

text \<open>The tuple a video-level loader appends for an included record, and for an included frame.\<close>

definition rebase :: "real \<Rightarrow> real \<Rightarrow> feat_tuple \<Rightarrow> feat_tuple" where
  "rebase start start_time r =
     (fst r - start + start_time, fst (snd r) - start + start_time, snd (snd r))"

definition rebase_frame :: "real \<Rightarrow> real \<Rightarrow> real \<Rightarrow> real \<times> real list \<Rightarrow> feat_tuple" where
  "rebase_frame time_period start start_time r =
     (fst r - start + start_time, fst r - start + start_time + time_period, snd r)"

section \<open>\<open>Dataset.controller\<close>\<close>

text \<open>
  \<open>validate_file\<close> works on \<open>data\<close>, the array \<open>pd.read_csv\<close> gives for the manifest:
  a list of rows of cells, every cell kept as the string \<open>str\<close> makes of it. A row may
  be too short here, which raises \<open>IndexError\<close> as an index out of range does. The
  loops write into \<open>self.modalities\<close> and \<open>self.dataset_info\<close> as they go, so each
  returns the exception, if any, together with the dictionary as it stands then.
\<close>

definition cell :: "string list \<Rightarrow> nat \<Rightarrow> error + string" where
  "cell record i = (if i < length record then Inr (record ! i) else Inl IndexError)"

definition modality_key :: "nat \<Rightarrow> string" where
  "modality_key i = ''modality_'' @ py_str (int i)"

text \<open>Lines 72-77, for the values \<open>is\<close> of \<open>i\<close> still to come.\<close>

fun modalities_loop ::
  "string list list \<Rightarrow> nat list \<Rightarrow> modality_info dict \<Rightarrow> error option \<times> modality_info dict" where
  "modalities_loop data [] mods = (None, mods)"
| "modalities_loop data (i # is) mods =
     (if length data < 2 then (Some IndexError, mods)
      else (case cell (data ! 1) (i + 4) of
              Inl e \<Rightarrow> (Some e, mods)
            | Inr l \<Rightarrow>
                (case cell (data ! 0) (i + 4) of
                   Inl e \<Rightarrow> (Some e, mods)
                 | Inr t \<Rightarrow>
                     modalities_loop data is
                       (AList.update (modality_key i) \<lparr>level = l, api_type = t\<rparr> mods))))"

text \<open>Lines 90-92.\<close>

fun files_loop :: "string list \<Rightarrow> nat list \<Rightarrow> string dict \<Rightarrow> error + string dict" where
  "files_loop record [] files = Inr files"
| "files_loop record (i # is) files =
     bind_e (cell record (i + 4)) (\<lambda>c. files_loop record is (AList.update (modality_key i) c files))"

text \<open>Lines 80-93: one record of the manifest.\<close>

definition validate_record ::
  "world \<Rightarrow> nat \<Rightarrow> string list \<Rightarrow> segment_data dict dict \<Rightarrow> error option \<times> segment_data dict dict" where
  "validate_record w modality_count record info =
     (case cell record 0 of
        Inl e \<Rightarrow> (Some e, info)
      | Inr video_id \<Rightarrow>
          (case cell record 1 of
             Inl e \<Rightarrow> (Some e, info)
           | Inr segment_id \<Rightarrow>
               (let info1 = (if map_of info video_id = None then AList.update video_id [] info else info);
                    segs = (case map_of info1 video_id of None \<Rightarrow> [] | Some s \<Rightarrow> s)
                in if map_of segs segment_id \<noteq> None then (Some NameError, info1)
                   else (case bind_e (float_at w record 2) (\<lambda>a.
                               bind_e (float_at w record 3) (\<lambda>b.
                               bind_e (files_loop record [0..<modality_count] []) (\<lambda>files.
                                 Inr \<lparr>seg_start = a, seg_end = b, seg_files = files\<rparr>))) of
                           Inl e \<Rightarrow> (Some e, info1)
                         | Inr segment_data \<Rightarrow>
                             (None, AList.update video_id
                                      (AList.update segment_id segment_data segs) info1)))))"

fun validate_records ::
  "world \<Rightarrow> nat \<Rightarrow> string list list \<Rightarrow> segment_data dict dict \<Rightarrow> error option \<times> segment_data dict dict" where
  "validate_records w modality_count [] info = (None, info)"
| "validate_records w modality_count (record # records) info =
     (case validate_record w modality_count record info of
        (Some e, info') \<Rightarrow> (Some e, info')
      | (None, info') \<Rightarrow> validate_records w modality_count records info')"

text \<open>
  \<open>validate_file\<close>, lines 66-94. \<open>range\<close> of a negative count is empty, as the
  truncated subtraction makes it.
\<close>

definition validate_file :: "world \<Rightarrow> string list list \<Rightarrow> Dataset \<Rightarrow> error option \<times> Dataset" where
  "validate_file w data ds =
     (let ds0 = ds\<lparr>dataset_info := Some []\<rparr>
      in if data = [] then (Some IndexError, ds0)
         else (let modality_count = length (data ! 0) - 4
               in (case modalities_loop data [0..<modality_count] [] of
                     (Some e, mods) \<Rightarrow> (Some e, ds0\<lparr>modalities := Some mods\<rparr>)
                   | (None, mods) \<Rightarrow>
                       (case validate_records w modality_count (drop 2 data) [] of
                          (r, info) \<Rightarrow> (r, ds0\<lparr>modalities := Some mods, dataset_info := Some info\<rparr>)))))"

text \<open>
  \<open>load_features\<close>, lines 97-118. Beside the result each loop returns \<open>calls\<close>, the
  loader invocations so far, each as the loader's name and the file path it was given.
\<close>

type_synonym loader = "world \<Rightarrow> string \<Rightarrow> real \<Rightarrow> real \<Rightarrow> string \<Rightarrow> string \<Rightarrow> error + feats"

fun load_segments ::
  "world \<Rightarrow> loader \<Rightarrow> string \<Rightarrow> string \<Rightarrow> string \<Rightarrow> string \<Rightarrow> segment_data dict \<Rightarrow> feats dict
     \<Rightarrow> (string \<times> string) list \<Rightarrow> (error + feats dict) \<times> (string \<times> string) list" where
  "load_segments w meth api key tstamps lvl [] video_feats calls = (Inr video_feats, calls)"
| "load_segments w meth api key tstamps lvl ((segment_id, segment_data) # r) video_feats calls =
     (case getitem (seg_files segment_data) key of
        Inl e \<Rightarrow> (Inl e, calls)
      | Inr filepath \<Rightarrow>
          (case meth w filepath (seg_start segment_data) (seg_end segment_data) tstamps lvl of
             Inl e \<Rightarrow> (Inl e, calls @ [(api, filepath)])
           | Inr f \<Rightarrow>
               load_segments w meth api key tstamps lvl r
                 (AList.update segment_id f video_feats) (calls @ [(api, filepath)])))"

fun load_videos ::
  "world \<Rightarrow> loader \<Rightarrow> string \<Rightarrow> string \<Rightarrow> string \<Rightarrow> string \<Rightarrow> segment_data dict dict \<Rightarrow> feats dict dict
     \<Rightarrow> (string \<times> string) list \<Rightarrow> (error + feats dict dict) \<times> (string \<times> string) list" where
  "load_videos w meth api key tstamps lvl [] modality_feats calls = (Inr modality_feats, calls)"
| "load_videos w meth api key tstamps lvl ((video_id, video_data) # r) modality_feats calls =
     (case load_segments w meth api key tstamps lvl video_data [] calls of
        (Inl e, calls') \<Rightarrow> (Inl e, calls')
      | (Inr video_feats, calls') \<Rightarrow>
          load_videos w meth api key tstamps lvl r
            (AList.update video_id video_feats modality_feats) calls')"

fun load_modalities ::
  "world \<Rightarrow> string \<Rightarrow> segment_data dict dict \<Rightarrow> modality_info dict \<Rightarrow> feats dict dict dict
     \<Rightarrow> (string \<times> string) list \<Rightarrow> (error + feats dict dict dict) \<times> (string \<times> string) list" where
  "load_modalities w tstamps data [] feat_dict calls = (Inr feat_dict, calls)"
| "load_modalities w tstamps data ((key, value) # r) feat_dict calls =
     (case loader_method (api_type value) of
        Inl e \<Rightarrow> (Inl e, calls)
      | Inr meth \<Rightarrow>
          (case load_videos w meth (api_type value) key tstamps (level value) data [] calls of
             (Inl e, calls') \<Rightarrow> (Inl e, calls')
           | (Inr modality_feats, calls') \<Rightarrow>
               load_modalities w tstamps data r (AList.update key modality_feats feat_dict) calls'))"

definition load_features ::
  "world \<Rightarrow> Dataset \<Rightarrow> (error + feats dict dict dict) \<times> (string \<times> string) list" where
  "load_features w ds =
     (case dataset_info ds of
        None \<Rightarrow> (Inl AttributeError, [])
      | Some data \<Rightarrow>
          (case modalities ds of
             None \<Rightarrow> (Inl AttributeError, [])
           | Some mods \<Rightarrow> load_modalities w (timestamps ds) data mods [] []))"

text \<open>
  \<open>controller\<close>, lines 120-123: the feature dictionary or the exception, the object
  afterwards, and the loader invocations made.
\<close>

definition controller ::
  "world \<Rightarrow> string list list \<Rightarrow> Dataset
     \<Rightarrow> (error + feats dict dict dict) \<times> Dataset \<times> (string \<times> string) list" where
  "controller w data ds =
     (case validate_file w data ds of
        (Some e, ds') \<Rightarrow> (Inl e, ds', [])
      | (None, ds') \<Rightarrow> (case load_features w ds' of (r, calls) \<Rightarrow> (r, ds', calls)))"

text \<open>\<open>load\<close> with \<open>stored = False\<close>, lines 55-57.\<close>

definition load ::
  "world \<Rightarrow> string list list \<Rightarrow> Dataset
     \<Rightarrow> (error + feats dict dict dict) \<times> Dataset \<times> (string \<times> string) list" where
  "load w data ds =
     (case controller w data ds of
        (Inl e, ds', calls) \<Rightarrow> (Inl e, ds', calls)
      | (Inr fd, ds', calls) \<Rightarrow> (Inr fd, ds'\<lparr>feature_dict := Some fd\<rparr>, calls))"

text \<open>\<open>Dataset(dataset_file, timestamps=...)\<close>, lines 35-39, as far as the attributes above go.\<close>

definition new_dataset :: "string \<Rightarrow> Dataset" where
  "new_dataset tstamps =
     \<lparr>timestamps = tstamps, feature_dict = None, modalities = None, dataset_info = None,
      aligned_feature_dict = None\<rparr>"

text \<open>
  Manifests for the examples: one video with segments \<open>2\<close> and \<open>3\<close> and two
  segment-level modalities; in the second manifest the last row repeats segment \<open>2\<close>.
\<close>

definition example_manifest :: "string list list" where
  "example_manifest =
     [[''0'', ''1'', ''2'', ''3'', ''words'', ''misc''],
      [''x'', ''x'', ''x'', ''x'', ''s'', ''s''],
      [''v'', ''2'', ''0'', ''1'', ''pivot2.csv'', ''target2.csv''],
      [''v'', ''3'', ''1'', ''2'', ''pivot3.csv'', ''target3.csv'']]"

definition duplicate_manifest :: "string list list" where
  "duplicate_manifest =
     [[''0'', ''1'', ''2'', ''3'', ''words'', ''misc''],
      [''x'', ''x'', ''x'', ''x'', ''s'', ''s''],
      [''v'', ''2'', ''0'', ''1'', ''pivot2.csv'', ''target2.csv''],
      [''v'', ''3'', ''1'', ''2'', ''pivot3.csv'', ''target3.csv''],
      [''v'', ''2'', ''1'', ''2'', ''pivot3.csv'', ''target3.csv'']]"

text \<open>
  A (video, segment) pair is registered once \<open>dataset_info\<close> holds it. A manifest
  record is well formed when it has the four leading cells and one cell per modality,
  and its start and end read as numbers.
\<close>

definition registered :: "segment_data dict dict \<Rightarrow> string \<Rightarrow> string \<Rightarrow> bool" where
  "registered info video_id segment_id \<longleftrightarrow>
     (\<exists>segs. map_of info video_id = Some segs \<and> map_of segs segment_id \<noteq> None)"

definition wf_record :: "world \<Rightarrow> nat \<Rightarrow> string list \<Rightarrow> bool" where
  "wf_record w modality_count record \<longleftrightarrow>
     4 + modality_count \<le> length record
     \<and> py_float w (record ! 2) \<noteq> None \<and> py_float w (record ! 3) \<noteq> None"

section \<open>Shape of the aligned output\<close>

lemma scenario_align:
  "align scenario_dataset ''modality_0'' =
     (Inr scenario_aligned, [], scenario_dataset\<lparr>aligned_feature_dict := Some scenario_aligned\<rparr>)"
  by (simp add: scenario_dataset_def scenario_aligned_def align_def get_alignments_def
      feature_dict_at_def getitem_def timings_def timing_def align_modality_def
      align_interval_def getitem2_def first_len_def resample_def np_zeros_def np_add_def
      np_multiply_def)

text \<open>
  C3. On the pivot grid \<open>[(0,1),(1,2)]\<close> and the target stream
  \<open>[(0,0.5,[2]), (0.5,1.5,[4]), (1.5,2,[6])]\<close>, \<open>align\<close> returns for the target modality
  the value \<open>3\<close> on \<open>(0,1)\<close> and \<open>5\<close> on \<open>(1,2)\<close>, prints nothing, and each value is the
  sum of value times overlap divided by span over the overlapping source intervals.
\<close>

theorem scenario_values:
  "fst (align scenario_dataset ''modality_0'') =
     Inr [(''modality_1'', [(''v'', [(''1'', [(0, 1, [3]), (1, 2, [5])])])])]
   \<and> fst (snd (align scenario_dataset ''modality_0'')) = []
   \<and> resample (0, 1) (Some [(0, 1/2, [2]), (1/2, 3/2, [4]), (3/2, 2, [6])])
       = Inr (0, 1, [2 * ((1/2 - 0) / (1 - 0)) + 4 * ((1 - 1/2) / (1 - 0))])
   \<and> resample (1, 2) (Some [(0, 1/2, [2]), (1/2, 3/2, [4]), (3/2, 2, [6])])
       = Inr (1, 2, [4 * ((3/2 - 1) / (2 - 1)) + 6 * ((2 - 3/2) / (2 - 1))])"
  by (simp add: scenario_dataset_def align_def get_alignments_def
      feature_dict_at_def getitem_def timings_def timing_def align_modality_def
      align_interval_def getitem2_def first_len_def resample_def np_zeros_def np_add_def
      np_multiply_def)

lemma resample_timing: "resample iv f = Inr t \<Longrightarrow> timing t = iv"
  by (auto simp: resample_def timing_def split: prod.splits sum.splits)

lemma align_interval_timing:
  "align_interval m mfd v s iv st = (Inr t, st') \<Longrightarrow> timing t = iv"
  by (auto simp: align_interval_def Let_def split: sum.splits dest: resample_timing)

lemma align_segment_timing:
  "align_segment m mfd v s ivs acc st = (Inr r, st') \<Longrightarrow> map timing r = map timing acc @ ivs"
proof (induction ivs arbitrary: acc st)
  case Nil
  then show ?case by simp
next
  case (Cons iv ivs)
  then show ?case
    by (auto split: prod.splits sum.splits dest: align_interval_timing)
qed

lemma align_video_timing:
  "align_video m mfd v segs acc st = (Inr r, st') \<Longrightarrow> map_of r s = Some stream \<Longrightarrow>
     (\<exists>g. (s, g) \<in> set segs \<and> map timing stream = g) \<or> map_of acc s = Some stream"
proof (induction segs arbitrary: acc st)
  case Nil
  then show ?case by simp
next
  case (Cons sg segs)
  obtain sid g where sg: "sg = (sid, g)" by (cases sg)
  from Cons.prems(1) sg obtain a st1 where
    a: "align_segment m mfd v sid g [] st = (Inr a, st1)" and
    rest: "align_video m mfd v segs (AList.update sid a acc) st1 = (Inr r, st')"
    by (auto split: prod.splits sum.splits)
  from Cons.IH [OF rest Cons.prems(2)] show ?case
  proof
    assume "\<exists>g. (s, g) \<in> set segs \<and> map timing stream = g"
    then show ?thesis by auto
  next
    assume u: "map_of (AList.update sid a acc) s = Some stream"
    show ?thesis
    proof (cases "s = sid")
      case True
      with u have "stream = a" by (simp add: update_conv')
      with align_segment_timing [OF a] True sg show ?thesis by simp
    next
      case False
      with u show ?thesis by (simp add: update_conv')
    qed
  qed
qed

lemma align_videos_timing:
  "align_videos m mfd al acc st = (Inr r, st') \<Longrightarrow> map_of r v = Some sv \<Longrightarrow>
     (\<exists>segs. (v, segs) \<in> set al \<and>
        (\<forall>s stream. map_of sv s = Some stream \<longrightarrow> (\<exists>g. (s, g) \<in> set segs \<and> map timing stream = g)))
     \<or> map_of acc v = Some sv"
proof (induction al arbitrary: acc st)
  case Nil
  then show ?case by simp
next
  case (Cons vg al)
  obtain vid segs where vg: "vg = (vid, segs)" by (cases vg)
  from Cons.prems(1) vg obtain a st1 where
    a: "align_video m mfd vid segs [] st = (Inr a, st1)" and
    rest: "align_videos m mfd al (AList.update vid a acc) st1 = (Inr r, st')"
    by (auto split: prod.splits sum.splits)
  from Cons.IH [OF rest Cons.prems(2)] show ?case
  proof
    assume "\<exists>segs. (v, segs) \<in> set al \<and>
      (\<forall>s stream. map_of sv s = Some stream \<longrightarrow> (\<exists>g. (s, g) \<in> set segs \<and> map timing stream = g))"
    then show ?thesis by auto
  next
    assume u: "map_of (AList.update vid a acc) v = Some sv"
    show ?thesis
    proof (cases "v = vid")
      case True
      with u have "sv = a" by (simp add: update_conv')
      have "\<forall>s stream. map_of a s = Some stream \<longrightarrow> (\<exists>g. (s, g) \<in> set segs \<and> map timing stream = g)"
        using align_video_timing [OF a] by simp
      with \<open>sv = a\<close> True vg show ?thesis by auto
    next
      case False
      with u show ?thesis by (simp add: update_conv')
    qed
  qed
qed

lemma align_loop_timing:
  "align_loop ds p grid ms acc out = (Inr r, out') \<Longrightarrow> map_of r m = Some mv \<Longrightarrow>
     (m \<noteq> p \<and> m \<in> set ms \<and> (\<forall>v sv. map_of mv v = Some sv \<longrightarrow>
        (\<exists>segs. (v, segs) \<in> set grid \<and>
           (\<forall>s stream. map_of sv s = Some stream \<longrightarrow> (\<exists>g. (s, g) \<in> set segs \<and> map timing stream = g)))))
     \<or> map_of acc m = Some mv"
proof (induction ms arbitrary: acc out)
  case Nil
  then show ?case by simp
next
  case (Cons x ms)
  show ?case
  proof (cases "x = p")
    case True
    with Cons.prems have "align_loop ds p grid ms acc out = (Inr r, out')" by simp
    from Cons.IH [OF this Cons.prems(2)] show ?thesis by auto
  next
    case False
    with Cons.prems(1) obtain a pr where
      a: "align_modality ds x grid = (Inr a, pr)" and
      rest: "align_loop ds p grid ms (AList.update x a acc) (out @ pr) = (Inr r, out')"
      by (auto split: prod.splits sum.splits)
    from a obtain mfd st1 where
      av: "align_videos x mfd grid [] \<lparr>warning_hist = {}, printed = []\<rparr> = (Inr a, st1)"
      by (auto simp: align_modality_def split: sum.splits prod.splits)
    from Cons.IH [OF rest Cons.prems(2)] show ?thesis
    proof
      assume "m \<noteq> p \<and> m \<in> set ms \<and> (\<forall>v sv. map_of mv v = Some sv \<longrightarrow>
        (\<exists>segs. (v, segs) \<in> set grid \<and>
           (\<forall>s stream. map_of sv s = Some stream \<longrightarrow> (\<exists>g. (s, g) \<in> set segs \<and> map timing stream = g))))"
      then show ?thesis by auto
    next
      assume u: "map_of (AList.update x a acc) m = Some mv"
      show ?thesis
      proof (cases "m = x")
        case True
        with u have mv: "mv = a" by (simp add: update_conv')
        have "\<forall>v sv. map_of mv v = Some sv \<longrightarrow>
          (\<exists>segs. (v, segs) \<in> set grid \<and>
             (\<forall>s stream. map_of sv s = Some stream \<longrightarrow> (\<exists>g. (s, g) \<in> set segs \<and> map timing stream = g)))"
        proof (intro allI impI)
          fix v sv assume "map_of mv v = Some sv"
          with mv have "map_of a v = Some sv" by simp
          from align_videos_timing [OF av this]
          show "\<exists>segs. (v, segs) \<in> set grid \<and>
            (\<forall>s stream. map_of sv s = Some stream \<longrightarrow> (\<exists>g. (s, g) \<in> set segs \<and> map timing stream = g))"
            by simp
        qed
        with True False show ?thesis by simp
      next
        case False
        with u show ?thesis by (simp add: update_conv')
      qed
    qed
  qed
qed

lemma set_update_cases:
  "x \<in> set (AList.update k v al) \<Longrightarrow> x = (k, v) \<or> x \<in> set al"
  by (induction al) (auto split: if_splits)

lemma segment_alignments_of_distinct:
  "segment_alignments_of segs acc = Inr r \<Longrightarrow> distinct (map fst acc) \<Longrightarrow> distinct (map fst r)"
  by (induction segs arbitrary: acc) (auto split: sum.splits simp: distinct_update)

lemma alignments_of_distinct:
  "alignments_of vs acc = Inr r \<Longrightarrow> distinct (map fst acc) \<Longrightarrow> distinct (map fst r)"
  by (induction vs arbitrary: acc) (auto split: sum.splits simp: distinct_update)

lemma alignments_of_inner_distinct:
  "alignments_of vs acc = Inr r \<Longrightarrow> \<forall>(v, segs) \<in> set acc. distinct (map fst segs) \<Longrightarrow>
     (v, segs) \<in> set r \<Longrightarrow> distinct (map fst segs)"
proof (induction vs arbitrary: acc)
  case Nil
  then show ?case by auto
next
  case (Cons a vs)
  obtain vid sg where a: "a = (vid, sg)" by (cases a)
  from Cons.prems(1) a obtain sa where sa: "segment_alignments_of sg [] = Inr sa"
    and rest: "alignments_of vs (AList.update vid sa acc) = Inr r"
    by (auto split: sum.splits)
  have d: "distinct (map fst sa)" using segment_alignments_of_distinct [OF sa] by simp
  have "\<forall>(v, segs) \<in> set (AList.update vid sa acc). distinct (map fst segs)"
    using Cons.prems(2) d by (auto dest!: set_update_cases)
  from Cons.IH [OF rest this Cons.prems(3)] show ?case .
qed

text \<open>
  C4. Whenever \<open>align\<close> returns, every stream of its output belongs to a modality other
  than the pivot, sits at a (video, segment) of the grid that \<open>get_alignments\<close> built
  from the pivot, and its \<open>(start, end)\<close> pairs, read in order, are exactly that grid's
  intervals: one entry per grid interval, in the grid's order, with the grid's
  boundaries. Two modalities of the output therefore agree on the boundaries of every
  segment they share.
\<close>

theorem align_output_matches_grid:
  assumes "align ds p = (Inr out, pr, ds')"
    and "map_of out m = Some mv" and "map_of mv v = Some sv" and "map_of sv s = Some stream"
  shows "m \<noteq> p \<and> (\<exists>grid segs. get_alignments ds p = Inr grid \<and> map_of grid v = Some segs
           \<and> map_of segs s = Some (map timing stream))"
proof -
  from assms(1) obtain mods grid out' where
    mods: "modalities ds = Some mods" and grid: "get_alignments ds p = Inr grid" and
    loop: "align_loop ds p grid (map fst mods) [] [] = (Inr out, out')"
    by (auto simp: align_def split: option.splits sum.splits prod.splits)
  from align_loop_timing [OF loop assms(2)] have np: "m \<noteq> p" and
    h: "\<forall>v sv. map_of mv v = Some sv \<longrightarrow>
        (\<exists>segs. (v, segs) \<in> set grid \<and>
           (\<forall>s stream. map_of sv s = Some stream \<longrightarrow> (\<exists>g. (s, g) \<in> set segs \<and> map timing stream = g)))"
    by auto
  from h assms(3,4) obtain segs where
    vs: "(v, segs) \<in> set grid" and sg: "(s, map timing stream) \<in> set segs"
    by blast
  from grid obtain fd where ao: "alignments_of fd [] = Inr grid"
    by (auto simp: get_alignments_def split: sum.splits)
  have d1: "distinct (map fst grid)" using alignments_of_distinct [OF ao] by simp
  have d2: "distinct (map fst segs)" using alignments_of_inner_distinct [OF ao _ vs] by simp
  from d1 vs have "map_of grid v = Some segs" by simp
  moreover from d2 sg have "map_of segs s = Some (map timing stream)" by simp
  ultimately show ?thesis using np grid by simp
qed

theorem align_output_matches_grid_witness:
  "align scenario_dataset ''modality_0'' =
     (Inr scenario_aligned, [], scenario_dataset\<lparr>aligned_feature_dict := Some scenario_aligned\<rparr>)
   \<and> map_of scenario_aligned ''modality_1'' = Some [(''v'', [(''1'', [(0, 1, [3]), (1, 2, [5])])])]
   \<and> ''modality_1'' \<noteq> ''modality_0''
   \<and> (\<exists>grid segs. get_alignments scenario_dataset ''modality_0'' = Inr grid
         \<and> map_of grid ''v'' = Some segs \<and> map_of segs ''1'' = Some [(0, 1), (1, 2)])"
proof -
  have h2: "map_of scenario_aligned ''modality_1'' = Some [(''v'', [(''1'', [(0, 1, [3]), (1, 2, [5])])])]"
    by (simp add: scenario_aligned_def)
  have h3: "map_of [(''v'', [(''1'', [(0, 1, [3]), (1, 2, [5::real])])])] ''v''
              = Some [(''1'', [(0::real, 1::real, [3]), (1, 2, [5])])]"
    by simp
  have h4: "map_of [(''1'', [(0::real, 1::real, [3::real]), (1, 2, [5])])] ''1''
              = Some [(0, 1, [3]), (1, 2, [5])]"
    by simp
  from align_output_matches_grid [OF scenario_align h2 h3 h4] scenario_align h2
  show ?thesis by (simp add: timing_def)
qed

section \<open>Determinism of \<open>align\<close>\<close>

lemma align_modality_frame:
  "feature_dict ds2 = feature_dict ds1 \<Longrightarrow> align_modality ds2 m g = align_modality ds1 m g"
  by (simp add: align_modality_def feature_dict_at_def)

lemma align_loop_frame:
  "feature_dict ds2 = feature_dict ds1 \<Longrightarrow>
     align_loop ds2 p g ms acc out = align_loop ds1 p g ms acc out"
  by (induction ms arbitrary: acc out)
     (simp_all add: align_modality_frame [of ds2 ds1] split: prod.splits sum.splits)

lemma get_alignments_frame:
  "feature_dict ds2 = feature_dict ds1 \<Longrightarrow> get_alignments ds2 p = get_alignments ds1 p"
  by (simp add: get_alignments_def feature_dict_at_def)

lemma align_frame:
  assumes f: "feature_dict ds2 = feature_dict ds1" and m: "modalities ds2 = modalities ds1"
  shows "fst (align ds2 p) = fst (align ds1 p) \<and> fst (snd (align ds2 p)) = fst (snd (align ds1 p))"
  by (simp add: align_def m get_alignments_frame [OF f] align_loop_frame [OF f]
      split: option.splits sum.splits prod.splits)

lemma align_after:
  "feature_dict (snd (snd (align ds p))) = feature_dict ds \<and>
   modalities (snd (snd (align ds p))) = modalities ds"
  by (simp add: align_def split: option.splits sum.splits prod.splits)

lemma align_twice: "align (snd (snd (align ds p))) p = align ds p"
proof (cases "modalities ds")
  case None
  then show ?thesis by (simp add: align_def)
next
  case (Some mods)
  show ?thesis
  proof (cases "get_alignments ds p")
    case (Inl e)
    with Some show ?thesis by (simp add: align_def)
  next
    case (Inr g)
    obtain r out where l: "align_loop ds p g (map fst mods) [] [] = (r, out)"
      by (cases "align_loop ds p g (map fst mods) [] []")
    show ?thesis
    proof (cases r)
      case (Inl e)
      with Some Inr l show ?thesis by (simp add: align_def)
    next
      case (Inr a)
      let ?ds' = "ds\<lparr>aligned_feature_dict := Some a\<rparr>"
      have f: "feature_dict ?ds' = feature_dict ds" by simp
      from Some \<open>get_alignments ds p = Inr g\<close> l Inr
      have 1: "align ds p = (Inr a, out, ?ds')" by (simp add: align_def)
      have "align ?ds' p = (Inr a, out, ?ds')"
        using Some \<open>get_alignments ds p = Inr g\<close> l Inr
        by (simp add: align_def get_alignments_frame [OF f] align_loop_frame [OF f])
      with 1 show ?thesis by simp
    qed
  qed
qed

text \<open>
  C9. \<open>align\<close> is a function of the feature dictionary, the modality table and the
  pivot: two objects that agree on \<open>feature_dict\<close> and \<open>modalities\<close> give the same
  returned dictionary (or the same exception) and the same printed lines, and a second
  call on the object the first call left behind returns exactly what the first returned.
\<close>

theorem align_deterministic:
  "(feature_dict ds2 = feature_dict ds1 \<and> modalities ds2 = modalities ds1 \<longrightarrow>
      fst (align ds2 p) = fst (align ds1 p) \<and> fst (snd (align ds2 p)) = fst (snd (align ds1 p)))
   \<and> align (snd (snd (align ds1 p))) p = align ds1 p"
  using align_frame [of ds2 ds1 p] align_twice [of ds1 p] by blast

theorem align_deterministic_witness:
  "feature_dict (scenario_dataset\<lparr>timestamps := ''relative''\<rparr>) = feature_dict scenario_dataset
   \<and> modalities (scenario_dataset\<lparr>timestamps := ''relative''\<rparr>) = modalities scenario_dataset
   \<and> fst (align (scenario_dataset\<lparr>timestamps := ''relative''\<rparr>) ''modality_0'') = Inr scenario_aligned
   \<and> fst (snd (align (scenario_dataset\<lparr>timestamps := ''relative''\<rparr>) ''modality_0'')) = []
   \<and> align (scenario_dataset\<lparr>aligned_feature_dict := Some scenario_aligned\<rparr>) ''modality_0''
       = align scenario_dataset ''modality_0''"
  using align_deterministic [of "scenario_dataset\<lparr>timestamps := ''relative''\<rparr>" scenario_dataset "''modality_0''"]
    scenario_align
  by simp

section \<open>Lookup failures of \<open>align\<close>\<close>

lemmas eval_align = align_def get_alignments_def feature_dict_at_def stream_at_def getitem_def
  timings_def timing_def align_modality_def align_interval_def getitem2_def first_len_def
  resample_def np_zeros_def np_add_def np_multiply_def two_modalities_def warn_def
  getitem_prev_def py_int_def py_str_def strip_def is_space_def digit_val_def digit_char_def
  str_nat.simps

lemma align_segment_lookup_fails:
  "getitem2 mfd v s = Inl e \<Longrightarrow> align_segment m mfd v s (iv # ivs) acc st = (Inl e, st)"
  by (simp add: align_interval_def)

lemma align_video_fails:
  "(s, iv # ivs) \<in> set segs \<Longrightarrow> getitem2 mfd v s = Inl e \<Longrightarrow>
     \<exists>e' st'. align_video m mfd v segs acc st = (Inl e', st')"
proof (induction segs arbitrary: acc st)
  case Nil
  then show ?case by simp
next
  case (Cons sg segs)
  obtain sid g where sg: "sg = (sid, g)" by (cases sg)
  obtain r st1 where r: "align_segment m mfd v sid g [] st = (r, st1)"
    by (cases "align_segment m mfd v sid g [] st")
  show ?case
  proof (cases r)
    case (Inl e1)
    with sg r show ?thesis by simp
  next
    case (Inr a)
    have "sg \<noteq> (s, iv # ivs)"
    proof
      assume "sg = (s, iv # ivs)"
      with sg r Inr align_segment_lookup_fails [OF Cons.prems(2), of m iv ivs "[]" st]
      show False by simp
    qed
    with Cons.prems(1) have "(s, iv # ivs) \<in> set segs" by simp
    from Cons.IH [OF this Cons.prems(2)] sg r Inr show ?thesis by simp
  qed
qed

lemma align_videos_fails:
  "(v, segs) \<in> set al \<Longrightarrow> (s, iv # ivs) \<in> set segs \<Longrightarrow> getitem2 mfd v s = Inl e \<Longrightarrow>
     \<exists>e' st'. align_videos m mfd al acc st = (Inl e', st')"
proof (induction al arbitrary: acc st)
  case Nil
  then show ?case by simp
next
  case (Cons vg al)
  obtain vid g where vg: "vg = (vid, g)" by (cases vg)
  obtain r st1 where r: "align_video m mfd vid g [] st = (r, st1)"
    by (cases "align_video m mfd vid g [] st")
  show ?case
  proof (cases r)
    case (Inl e1)
    with vg r show ?thesis by simp
  next
    case (Inr a)
    have "vg \<noteq> (v, segs)"
    proof
      assume "vg = (v, segs)"
      with vg r Inr align_video_fails [OF Cons.prems(2,3), of m "[]" st]
      show False by auto
    qed
    with Cons.prems(1) have "(v, segs) \<in> set al" by simp
    from Cons.IH [OF this Cons.prems(2,3)] vg r Inr show ?thesis by simp
  qed
qed

lemma align_modality_fails:
  assumes "(v, segs) \<in> set grid" and "(s, iv # ivs) \<in> set segs" and "stream_at ds m v s = Inl e"
  shows "\<exists>e' pr. align_modality ds m grid = (Inl e', pr)"
proof (cases "feature_dict_at ds m")
  case (Inl e1)
  then show ?thesis by (simp add: align_modality_def)
next
  case (Inr mfd)
  with assms(3) have "getitem2 mfd v s = Inl e" by (simp add: stream_at_def)
  from align_videos_fails [OF assms(1,2) this, of m "[]" "\<lparr>warning_hist = {}, printed = []\<rparr>"]
  obtain e' st' where "align_videos m mfd grid [] \<lparr>warning_hist = {}, printed = []\<rparr> = (Inl e', st')"
    by blast
  with Inr show ?thesis by (simp add: align_modality_def)
qed

lemma align_loop_fails:
  "m \<in> set ms \<Longrightarrow> m \<noteq> p \<Longrightarrow> align_modality ds m grid = (Inl e, pr) \<Longrightarrow>
     \<exists>e' out'. align_loop ds p grid ms acc out = (Inl e', out')"
proof (induction ms arbitrary: acc out)
  case Nil
  then show ?case by simp
next
  case (Cons x ms)
  show ?case
  proof (cases "x = m")
    case True
    with Cons.prems show ?thesis by simp
  next
    case False
    with Cons.prems have "m \<in> set ms" by simp
    from Cons.IH [OF this Cons.prems(2,3)] show ?thesis
      by (auto split: prod.splits sum.splits)
  qed
qed

lemma segment_alignments_of_other:
  "segment_alignments_of segs acc = Inr r \<Longrightarrow> s \<notin> fst ` set segs \<Longrightarrow> map_of r s = map_of acc s"
  by (induction segs arbitrary: acc) (auto split: sum.splits simp: update_conv')

lemma segment_alignments_of_lookup:
  "segment_alignments_of segs acc = Inr r \<Longrightarrow> distinct (map fst segs) \<Longrightarrow>
     map_of segs s = Some f \<Longrightarrow> \<exists>l. f = Some l \<and> map_of r s = Some (map timing l)"
proof (induction segs arbitrary: acc)
  case Nil
  then show ?case by simp
next
  case (Cons sg segs)
  obtain sid f' where sg: "sg = (sid, f')" by (cases sg)
  from Cons.prems(1) sg obtain t where t: "timings f' = Inr t"
    and rest: "segment_alignments_of segs (AList.update sid t acc) = Inr r"
    by (auto split: sum.splits)
  show ?case
  proof (cases "s = sid")
    case True
    with Cons.prems(3) sg have ff: "f = f'" by simp
    from Cons.prems(2) sg True have "s \<notin> fst ` set segs" by auto
    from segment_alignments_of_other [OF rest this] True
    have "map_of r s = Some t" by (simp add: update_conv')
    with t ff show ?thesis by (auto simp: timings_def split: option.splits)
  next
    case False
    with Cons.prems sg have "distinct (map fst segs)" "map_of segs s = Some f" by auto
    from Cons.IH [OF rest this] show ?thesis .
  qed
qed

lemma alignments_of_other:
  "alignments_of vs acc = Inr r \<Longrightarrow> v \<notin> fst ` set vs \<Longrightarrow> map_of r v = map_of acc v"
  by (induction vs arbitrary: acc) (auto split: sum.splits simp: update_conv')

lemma alignments_of_lookup:
  "alignments_of vs acc = Inr r \<Longrightarrow> distinct (map fst vs) \<Longrightarrow> map_of vs v = Some ps \<Longrightarrow>
     \<exists>segs. map_of r v = Some segs \<and> segment_alignments_of ps [] = Inr segs"
proof (induction vs arbitrary: acc)
  case Nil
  then show ?case by simp
next
  case (Cons vg vs)
  obtain vid g where vg: "vg = (vid, g)" by (cases vg)
  from Cons.prems(1) vg obtain t where t: "segment_alignments_of g [] = Inr t"
    and rest: "alignments_of vs (AList.update vid t acc) = Inr r"
    by (auto split: sum.splits)
  show ?case
  proof (cases "v = vid")
    case True
    with Cons.prems(3) vg have ff: "ps = g" by simp
    from Cons.prems(2) vg True have "v \<notin> fst ` set vs" by auto
    from alignments_of_other [OF rest this] True
    have "map_of r v = Some t" by (simp add: update_conv')
    with t ff show ?thesis by simp
  next
    case False
    with Cons.prems vg have "distinct (map fst vs)" "map_of vs v = Some ps" by auto
    from Cons.IH [OF rest this] show ?thesis .
  qed
qed

text \<open>
  C5, as the code has it. The grid is built from the pivot and the other modalities are
  looked up at the pivot's (video, segment) pairs. So \<open>align\<close> raises, stores nothing
  and hands the exception to the caller, whenever the pivot has a stream with at least
  one interval at a (video, segment) for which a listed modality other than the pivot
  has no entry; the lookup at that pair is the one that raises \<open>KeyError\<close>. It also
  raises \<open>KeyError\<close> when the pivot itself is no key of the feature dictionary.
\<close>

theorem align_fails_on_missing_target:
  "(feature_dict ds = Some fd \<and> map_of fd p = Some pv \<and> distinct (map fst pv)
      \<and> map_of pv v = Some ps \<and> distinct (map fst ps) \<and> map_of ps s = Some (Some (t # ts))
      \<and> modalities ds = Some mods \<and> m \<in> set (map fst mods) \<and> m \<noteq> p
      \<and> stream_at ds m v s = Inl KeyError
     \<longrightarrow> (\<exists>e out. align ds p = (Inl e, out, ds))
         \<and> (\<forall>mfd st. feature_dict_at ds m = Inr mfd \<longrightarrow>
               align_interval m mfd v s (timing t) st = (Inl KeyError, st)))
   \<and> (feature_dict ds = Some fd \<and> map_of fd p = None \<and> modalities ds = Some mods
     \<longrightarrow> align ds p = (Inl KeyError, [], ds))"
proof (intro conjI impI)
  assume "feature_dict ds = Some fd \<and> map_of fd p = None \<and> modalities ds = Some mods"
  then show "align ds p = (Inl KeyError, [], ds)"
    by (simp add: align_def get_alignments_def feature_dict_at_def getitem_def)
next
  assume a: "feature_dict ds = Some fd \<and> map_of fd p = Some pv \<and> distinct (map fst pv)
      \<and> map_of pv v = Some ps \<and> distinct (map fst ps) \<and> map_of ps s = Some (Some (t # ts))
      \<and> modalities ds = Some mods \<and> m \<in> set (map fst mods) \<and> m \<noteq> p
      \<and> stream_at ds m v s = Inl KeyError"
  then show "\<forall>mfd st. feature_dict_at ds m = Inr mfd \<longrightarrow>
               align_interval m mfd v s (timing t) st = (Inl KeyError, st)"
    by (auto simp: stream_at_def align_interval_def)
  from a have fa: "feature_dict_at ds p = Inr pv"
    by (simp add: feature_dict_at_def getitem_def)
  show "\<exists>e out. align ds p = (Inl e, out, ds)"
  proof (cases "get_alignments ds p")
    case (Inl e)
    with a show ?thesis by (simp add: align_def)
  next
    case (Inr grid)
    with fa have ao: "alignments_of pv [] = Inr grid" by (simp add: get_alignments_def)
    from a alignments_of_lookup [OF ao, of v ps] obtain segs where
      g1: "map_of grid v = Some segs" and so: "segment_alignments_of ps [] = Inr segs"
      by auto
    from a segment_alignments_of_lookup [OF so, of s "Some (t # ts)"]
    have g2: "map_of segs s = Some (timing t # map timing ts)" by auto
    from g1 have m1: "(v, segs) \<in> set grid" by (rule map_of_SomeD)
    from g2 have m2: "(s, timing t # map timing ts) \<in> set segs" by (rule map_of_SomeD)
    from a have "stream_at ds m v s = Inl KeyError" by simp
    from align_modality_fails [OF m1 m2 this] obtain e' pr where
      "align_modality ds m grid = (Inl e', pr)" by blast
    from align_loop_fails [OF _ _ this, of "map fst mods" p "[]" "[]"] a
    obtain e2 out2 where "align_loop ds p grid (map fst mods) [] [] = (Inl e2, out2)" by auto
    with a Inr show ?thesis by (simp add: align_def)
  qed
qed

theorem align_fails_on_missing_target_witness:
  "stream_at target_lacks_segment ''modality_0'' ''v'' ''3'' = Inr (Some [(0, 1, [1]), (1, 2, [1])])
   \<and> stream_at target_lacks_segment ''modality_1'' ''v'' ''3'' = Inl KeyError
   \<and> (\<exists>e out. align target_lacks_segment ''modality_0'' = (Inl e, out, target_lacks_segment))
   \<and> align target_lacks_segment ''modality_7'' = (Inl KeyError, [], target_lacks_segment)"
proof -
  let ?pv = "[(''v'', [(''2'', Some [(0::real, 1::real, [1::real])]),
                        (''3'', Some [(0, 1, [1]), (1, 2, [1])])])]"
  let ?fd = "[(''modality_0'', ?pv), (''modality_1'', [(''v'', [(''2'', Some [(0, 1, [5])])])])]"
  let ?mods = "[(''modality_0'', \<lparr>level = ''s'', api_type = ''words''\<rparr>),
                (''modality_1'', \<lparr>level = ''s'', api_type = ''misc''\<rparr>)]"
  have h: "feature_dict target_lacks_segment = Some ?fd \<and> map_of ?fd ''modality_0'' = Some ?pv
      \<and> distinct (map fst ?pv)
      \<and> map_of ?pv ''v'' = Some [(''2'', Some [(0, 1, [1])]), (''3'', Some [(0, 1, [1]), (1, 2, [1])])]
      \<and> distinct (map fst [(''2'', Some [(0::real, 1::real, [1::real])]), (''3'', Some [(0, 1, [1]), (1, 2, [1])])])
      \<and> map_of [(''2'', Some [(0::real, 1::real, [1::real])]), (''3'', Some [(0, 1, [1]), (1, 2, [1])])] ''3''
           = Some (Some ((0, 1, [1]) # [(1, 2, [1])]))
      \<and> modalities target_lacks_segment = Some ?mods \<and> ''modality_1'' \<in> set (map fst ?mods)
      \<and> ''modality_1'' \<noteq> ''modality_0''
      \<and> stream_at target_lacks_segment ''modality_1'' ''v'' ''3'' = Inl KeyError"
    by (simp add: target_lacks_segment_def eval_align)
  have k: "feature_dict target_lacks_segment = Some ?fd \<and> map_of ?fd ''modality_7'' = None
      \<and> modalities target_lacks_segment = Some ?mods"
    by (simp add: target_lacks_segment_def two_modalities_def)
  have s0: "stream_at target_lacks_segment ''modality_0'' ''v'' ''3'' = Inr (Some [(0, 1, [1]), (1, 2, [1])])"
    by (simp add: target_lacks_segment_def eval_align)
  from align_fails_on_missing_target [where ds = target_lacks_segment and fd = ?fd
      and p = "''modality_0''" and pv = ?pv and v = "''v''" and s = "''3''" and mods = ?mods
      and m = "''modality_1''" and t = "(0, 1, [1])" and ts = "[(1, 2, [1])]"
      and ps = "[(''2'', Some [(0, 1, [1])]), (''3'', Some [(0, 1, [1]), (1, 2, [1])])]"] h
  have 1: "\<exists>e out. align target_lacks_segment ''modality_0'' = (Inl e, out, target_lacks_segment)"
    by blast
  from align_fails_on_missing_target [where ds = target_lacks_segment and fd = ?fd
      and p = "''modality_7''" and mods = ?mods] k
  have 2: "align target_lacks_segment ''modality_7'' = (Inl KeyError, [], target_lacks_segment)"
    by blast
  from h s0 1 2 show ?thesis by blast
qed

text \<open>
  The statement of the specification fails: here the pivot has no entry for segment \<open>3\<close>, which the
  other modality holds, and \<open>align\<close> returns, leaving that segment out.
\<close>

theorem pivot_lacks_segment_counterexample:
  "stream_at pivot_lacks_segment ''modality_0'' ''v'' ''3'' = Inl KeyError
   \<and> stream_at pivot_lacks_segment ''modality_1'' ''v'' ''3'' = Inr (Some [(0, 1, [6])])
   \<and> fst (align pivot_lacks_segment ''modality_0'')
       = Inr [(''modality_1'', [(''v'', [(''2'', [(0, 1, [5])])])])]"
  by (simp add: pivot_lacks_segment_def eval_align)

section \<open>The fallback to the preceding segment\<close>

lemma warn_idem: "warn m v s (warn m v s st) = warn m v s st"
  by (simp add: warn_def)

lemma align_interval_fallback:
  assumes "getitem2 mfd v s = Inr f" and "f = None \<or> f = Some []"
    and "py_int s = Inr n" and "getitem2 mfd v (py_str (n - 1)) = r"
  shows "align_interval m mfd v s iv st =
           (case r of Inl e \<Rightarrow> Inl e | Inr f' \<Rightarrow> resample iv f', warn m v s st)"
proof -
  from assms(1) obtain segs where g: "getitem mfd v = Inr segs"
    by (auto simp: getitem2_def split: sum.splits)
  with assms(3,4) have p: "getitem_prev mfd v s = r"
    by (simp add: getitem_prev_def getitem2_def)
  from assms(2) have "isl (first_len f)" by (auto simp: first_len_def)
  then obtain e0 where "first_len f = Inl e0" by (cases "first_len f") auto
  with assms(1) p show ?thesis
    by (simp add: align_interval_def split: sum.splits)
qed

lemma align_segment_fallback:
  assumes "getitem2 mfd v s = Inr f" and "f = None \<or> f = Some []"
    and "py_int s = Inr n" and "getitem2 mfd v (py_str (n - 1)) = Inr f'"
  shows "align_segment m mfd v s ivs acc st =
           (case resample_all ivs f' of Inl e \<Rightarrow> Inl e | Inr ts \<Rightarrow> Inr (acc @ ts),
            if ivs = [] then st else warn m v s st)"
proof (induction ivs arbitrary: acc st)
  case Nil
  then show ?case by simp
next
  case (Cons iv ivs)
  have ai: "align_interval m mfd v s iv st = (resample iv f', warn m v s st)"
    using align_interval_fallback [OF assms(1,2,3,4)] by simp
  show ?case
  proof (cases "resample iv f'")
    case (Inl e)
    with ai show ?thesis by simp
  next
    case (Inr t)
    with ai Cons.IH [of "acc @ [t]" "warn m v s st"] show ?thesis
      by (simp add: warn_idem split: sum.splits)
  qed
qed

lemma align_segment_fallback_fails:
  assumes "getitem2 mfd v s = Inr f" and "f = None \<or> f = Some []"
    and "py_int s = Inr n" and "getitem2 mfd v (py_str (n - 1)) = Inl e"
  shows "align_segment m mfd v s (iv # ivs) acc st = (Inl e, warn m v s st)"
  using align_interval_fallback [OF assms(1,2,3,4)] by simp

lemma warn_inv: "hist_inv st \<Longrightarrow> hist_inv (warn m v s st)"
  by (auto simp: hist_inv_def warn_def)

lemma align_interval_state:
  "snd (align_interval m mfd v s iv st) = st \<or> snd (align_interval m mfd v s iv st) = warn m v s st"
  by (auto simp: align_interval_def Let_def split: sum.splits)

lemma align_interval_inv: "hist_inv st \<Longrightarrow> hist_inv (snd (align_interval m mfd v s iv st))"
  using align_interval_state [of m mfd v s iv st] warn_inv [of st m v s] by auto

lemma align_segment_inv: "hist_inv st \<Longrightarrow> hist_inv (snd (align_segment m mfd v s ivs acc st))"
proof (induction ivs arbitrary: acc st)
  case Nil
  then show ?case by simp
next
  case (Cons iv ivs)
  obtain r st1 where r: "align_interval m mfd v s iv st = (r, st1)"
    by (cases "align_interval m mfd v s iv st")
  with align_interval_inv [OF Cons.prems, of m mfd v s iv] have i: "hist_inv st1" by simp
  show ?case
  proof (cases r)
    case (Inl e)
    with r i show ?thesis by simp
  next
    case (Inr t)
    with r Cons.IH [OF i] show ?thesis by simp
  qed
qed

lemma align_video_inv: "hist_inv st \<Longrightarrow> hist_inv (snd (align_video m mfd v segs acc st))"
proof (induction segs arbitrary: acc st)
  case Nil
  then show ?case by simp
next
  case (Cons sg segs)
  obtain sid g where sg: "sg = (sid, g)" by (cases sg)
  obtain r st1 where r: "align_segment m mfd v sid g [] st = (r, st1)"
    by (cases "align_segment m mfd v sid g [] st")
  with align_segment_inv [OF Cons.prems, of m mfd v sid g "[]"] have i: "hist_inv st1" by simp
  show ?case
  proof (cases r)
    case (Inl e)
    with sg r i show ?thesis by simp
  next
    case (Inr t)
    with sg r Cons.IH [OF i] show ?thesis by simp
  qed
qed

lemma align_videos_inv: "hist_inv st \<Longrightarrow> hist_inv (snd (align_videos m mfd al acc st))"
proof (induction al arbitrary: acc st)
  case Nil
  then show ?case by simp
next
  case (Cons vg al)
  obtain vid g where vg: "vg = (vid, g)" by (cases vg)
  obtain r st1 where r: "align_video m mfd vid g [] st = (r, st1)"
    by (cases "align_video m mfd vid g [] st")
  with align_video_inv [OF Cons.prems, of m mfd vid g "[]"] have i: "hist_inv st1" by simp
  show ?case
  proof (cases r)
    case (Inl e)
    with vg r i show ?thesis by simp
  next
    case (Inr t)
    with vg r Cons.IH [OF i] show ?thesis by simp
  qed
qed

lemma align_modality_printed_distinct: "distinct (map snd (snd (align_modality ds m grid)))"
proof (cases "feature_dict_at ds m")
  case (Inl e)
  then show ?thesis by (simp add: align_modality_def)
next
  case (Inr mfd)
  have "hist_inv \<lparr>warning_hist = {}, printed = []\<rparr>" by (simp add: hist_inv_def)
  from align_videos_inv [OF this, of m mfd grid "[]"] Inr show ?thesis
    by (auto simp: align_modality_def hist_inv_def split: prod.splits)
qed

text \<open>
  C1, as the code has it. The fallback is taken when the entry of the (video, segment)
  exists and is \<open>None\<close> or an empty list: then the stream of the segment named
  \<open>str(int(segment_id) - 1)\<close>, same video and modality, is resampled onto every grid
  interval of the segment, and one line is printed for the pair, at the first interval
  only. When that preceding entry is missing, the lookup raises \<open>KeyError\<close>; nothing
  looks further back. When the entry of the (video, segment) itself is missing, line
  719 raises \<open>KeyError\<close> before the \<open>try\<close>: no substitution and no line. Over a whole
  call of \<open>align_modality\<close> no (video, segment) pair is printed twice.
\<close>

theorem fallback_previous_segment:
  "(getitem2 mfd v s = Inr f \<and> (f = None \<or> f = Some []) \<and> py_int s = Inr n
      \<and> getitem2 mfd v (py_str (n - 1)) = Inr f' \<and> ivs \<noteq> [] \<and> (v, s) \<notin> warning_hist st
     \<longrightarrow> align_segment m mfd v s ivs [] st =
           (resample_all ivs f',
            st\<lparr>warning_hist := insert (v, s) (warning_hist st),
               printed := printed st @ [(last (split CHR ''_'' m), v, s)]\<rparr>))
   \<and> (getitem2 mfd v s = Inr f \<and> (f = None \<or> f = Some []) \<and> py_int s = Inr n
      \<and> getitem2 mfd v (py_str (n - 1)) = Inl KeyError
     \<longrightarrow> fst (align_segment m mfd v s (iv # ivs') acc st) = Inl KeyError)
   \<and> (getitem2 mfd v s = Inl KeyError
     \<longrightarrow> align_segment m mfd v s (iv # ivs') acc st = (Inl KeyError, st))
   \<and> distinct (map snd (snd (align_modality ds m grid)))"
proof (intro conjI impI)
  assume a: "getitem2 mfd v s = Inr f \<and> (f = None \<or> f = Some []) \<and> py_int s = Inr n
      \<and> getitem2 mfd v (py_str (n - 1)) = Inr f' \<and> ivs \<noteq> [] \<and> (v, s) \<notin> warning_hist st"
  then have "align_segment m mfd v s ivs [] st =
           (case resample_all ivs f' of Inl e \<Rightarrow> Inl e | Inr ts \<Rightarrow> Inr ([] @ ts),
            if ivs = [] then st else warn m v s st)"
    using align_segment_fallback [of mfd v s f n f' m ivs "[]" st] by blast
  with a show "align_segment m mfd v s ivs [] st =
           (resample_all ivs f',
            st\<lparr>warning_hist := insert (v, s) (warning_hist st),
               printed := printed st @ [(last (split CHR ''_'' m), v, s)]\<rparr>)"
    by (simp add: warn_def split: sum.splits)
next
  assume "getitem2 mfd v s = Inr f \<and> (f = None \<or> f = Some []) \<and> py_int s = Inr n
      \<and> getitem2 mfd v (py_str (n - 1)) = Inl KeyError"
  then show "fst (align_segment m mfd v s (iv # ivs') acc st) = Inl KeyError"
    using align_segment_fallback_fails [of mfd v s f n KeyError m iv ivs' acc st] by simp
next
  assume "getitem2 mfd v s = Inl KeyError"
  then show "align_segment m mfd v s (iv # ivs') acc st = (Inl KeyError, st)"
    by (simp add: align_interval_def)
next
  show "distinct (map snd (snd (align_modality ds m grid)))"
    by (rule align_modality_printed_distinct)
qed

theorem fallback_previous_segment_witness:
  "align_segment ''modality_1'' [(''v'', [(''2'', Some [(0, 1, [5])]), (''3'', Some [])])]
      ''v'' ''3'' [(0, 1), (1, 2)] [] \<lparr>warning_hist = {}, printed = []\<rparr>
     = (Inr [(0, 1, [5]), (1, 2, [0])],
        \<lparr>warning_hist = {(''v'', ''3'')}, printed = [(''1'', ''v'', ''3'')]\<rparr>)
   \<and> fst (align_segment ''modality_1'' [(''v'', [(''2'', Some [])])]
      ''v'' ''2'' [(0, 1), (1, 2)] [] \<lparr>warning_hist = {}, printed = []\<rparr>) = Inl KeyError
   \<and> align_segment ''modality_1'' [(''v'', [(''2'', Some [])])]
      ''v'' ''4'' [(0, 1), (1, 2)] [] \<lparr>warning_hist = {}, printed = []\<rparr>
     = (Inl KeyError, \<lparr>warning_hist = {}, printed = []\<rparr>)"
proof -
  let ?mfd = "[(''v'', [(''2'', Some [(0::real, 1::real, [5::real])]), (''3'', Some [])])]"
  let ?mfd2 = "[(''v'', [(''2'', (Some []) :: feats)])]"
  let ?st = "\<lparr>warning_hist = {}, printed = []\<rparr>"
  have h1: "getitem2 ?mfd ''v'' ''3'' = Inr (Some []) \<and> (Some [] = (None :: feats) \<or> Some [] = (Some [] :: feats))
      \<and> py_int ''3'' = Inr 3 \<and> getitem2 ?mfd ''v'' (py_str (3 - 1)) = Inr (Some [(0, 1, [5])])
      \<and> [(0::real, 1::real), (1, 2)] \<noteq> [] \<and> (''v'', ''3'') \<notin> warning_hist ?st"
    by (simp add: eval_align)
  have h2: "getitem2 ?mfd2 ''v'' ''2'' = Inr (Some []) \<and> (Some [] = (None :: feats) \<or> Some [] = (Some [] :: feats))
      \<and> py_int ''2'' = Inr 2 \<and> getitem2 ?mfd2 ''v'' (py_str (2 - 1)) = Inl KeyError"
    by (simp add: eval_align)
  have h3: "getitem2 ?mfd2 ''v'' ''4'' = Inl KeyError"
    by (simp add: eval_align)
  have r: "resample_all [(0, 1), (1, 2)] (Some [(0, 1, [5])]) = Inr [(0, 1, [5]), (1, 2, [0])]"
    by (simp add: eval_align)
  from fallback_previous_segment [where mfd = ?mfd and v = "''v''" and s = "''3''"
      and f = "Some []" and n = 3 and f' = "Some [(0, 1, [5])]" and ivs = "[(0, 1), (1, 2)]"
      and st = ?st and m = "''modality_1''"] h1 r
  have 1: "align_segment ''modality_1'' ?mfd ''v'' ''3'' [(0, 1), (1, 2)] [] ?st
     = (Inr [(0, 1, [5]), (1, 2, [0])],
        \<lparr>warning_hist = {(''v'', ''3'')}, printed = [(''1'', ''v'', ''3'')]\<rparr>)"
    by simp
  from fallback_previous_segment [where mfd = ?mfd2 and v = "''v''" and s = "''2''"
      and f = "Some []" and n = 2 and iv = "(0, 1)" and ivs' = "[(1, 2)]" and acc = "[]"
      and st = ?st and m = "''modality_1''"] h2
  have 2: "fst (align_segment ''modality_1'' ?mfd2 ''v'' ''2'' [(0, 1), (1, 2)] [] ?st) = Inl KeyError"
    by blast
  from fallback_previous_segment [where mfd = ?mfd2 and v = "''v''" and s = "''4''"
      and iv = "(0, 1)" and ivs' = "[(1, 2)]" and acc = "[]"
      and st = ?st and m = "''modality_1''"] h3
  have 3: "align_segment ''modality_1'' ?mfd2 ''v'' ''4'' [(0, 1), (1, 2)] [] ?st = (Inl KeyError, ?st)"
    by blast
  from 1 2 3 show ?thesis by blast
qed

text \<open>
  The statement of the specification fails for a missing entry: modality_1 has no entry for segment
  \<open>3\<close> and a stream for segment \<open>2\<close>; \<open>align\<close> raises \<open>KeyError\<close> and prints nothing.
\<close>

theorem absent_stream_counterexample:
  "stream_at target_lacks_segment ''modality_1'' ''v'' ''3'' = Inl KeyError
   \<and> stream_at target_lacks_segment ''modality_1'' ''v'' ''2'' = Inr (Some [(0, 1, [5])])
   \<and> align target_lacks_segment ''modality_0'' = (Inl KeyError, [], target_lacks_segment)"
  by (simp add: target_lacks_segment_def eval_align)

section \<open>Weights and coverage\<close>

lemma overlap_pass:
  "a < te \<Longrightarrow> b \<ge> ts \<Longrightarrow> a < b \<Longrightarrow> ts < te \<Longrightarrow> overlap ts te (a, b, v) = min te b - max ts a"
  by (simp add: overlap_def min_def max_def)

lemma overlap_skip:
  "\<not> (a < te \<and> b \<ge> ts) \<Longrightarrow> overlap ts te (a, b, v) = 0"
  by (auto simp: overlap_def min_def max_def)

lemma np_add_same:
  "length v = length acc \<Longrightarrow>
     np_add acc (np_multiply v w) = Inr (map (\<lambda>k. acc ! k + v ! k * w) [0..<length acc])"
  by (auto simp: np_add_def np_multiply_def intro!: nth_equalityI)

lemma accumulate_sum:
  assumes "ts < te"
  shows "\<forall>x \<in> set xs. length (snd (snd x)) = length acc \<Longrightarrow>
     \<forall>x \<in> set (overlapping ts te xs). fst x < fst (snd x) \<Longrightarrow>
     accumulate ts te (te - ts) xs acc =
       Inr (map (\<lambda>k. acc ! k + (\<Sum>x\<leftarrow>xs. snd (snd x) ! k * overlap ts te x / (te - ts)))
              [0..<length acc])"
proof (induction xs arbitrary: acc)
  case Nil
  show ?case by (simp add: map_nth)
next
  case (Cons x xs)
  obtain a b v where x: "x = (a, b, v)" by (cases x)
  from Cons.prems(1) x have lv: "length v = length acc" by simp
  show ?case
  proof (cases "a < te \<and> b \<ge> ts")
    case True
    with Cons.prems(2) x have ab: "a < b" by (simp add: overlapping_def)
    from True ab assms have ov: "overlap ts te x = min te b - max ts a"
      using overlap_pass [where a = a and b = b and ts = ts and te = te and v = v] x by simp
    let ?w = "(min te b - max ts a) / (te - ts)"
    let ?acc' = "map (\<lambda>k. acc ! k + v ! k * ?w) [0..<length acc]"
    have na: "np_add acc (np_multiply v ?w) = Inr ?acc'" using np_add_same [OF lv] .
    have l': "length ?acc' = length acc" by simp
    have p1: "\<forall>y \<in> set xs. length (snd (snd y)) = length ?acc'" using Cons.prems(1) by simp
    have p2: "\<forall>y \<in> set (overlapping ts te xs). fst y < fst (snd y)"
      using Cons.prems(2) by (simp add: overlapping_def)
    from Cons.IH [OF p1 p2]
    have ih: "accumulate ts te (te - ts) xs ?acc' =
       Inr (map (\<lambda>k. ?acc' ! k + (\<Sum>x\<leftarrow>xs. snd (snd x) ! k * overlap ts te x / (te - ts)))
              [0..<length acc])" by simp
    have "accumulate ts te (te - ts) (x # xs) acc = accumulate ts te (te - ts) xs ?acc'"
      using True assms na x by simp
    also have "\<dots> = Inr (map (\<lambda>k. acc ! k + (\<Sum>x\<leftarrow>(x # xs). snd (snd x) ! k * overlap ts te x / (te - ts)))
              [0..<length acc])"
      unfolding ih using ov x by (simp add: add.assoc)
    finally show ?thesis .
  next
    case False
    then have ov: "overlap ts te x = 0" using overlap_skip [where a = a and b = b and ts = ts and te = te and v = v] x by simp
    have p2: "\<forall>y \<in> set (overlapping ts te xs). fst y < fst (snd y)"
      using Cons.prems(2) by (simp add: overlapping_def)
    have "accumulate ts te (te - ts) (x # xs) acc = accumulate ts te (te - ts) xs acc"
      using False x by auto
    with Cons.IH [of acc] Cons.prems(1) p2 ov show ?thesis by simp
  qed
qed

lemma weights_sum:
  assumes "ts < te"
  shows "\<forall>x \<in> set (overlapping ts te xs). fst x < fst (snd x) \<Longrightarrow>
     sum_list (weights ts te xs) = (\<Sum>x\<leftarrow>xs. overlap ts te x) / (te - ts)"
proof (induction xs)
  case Nil
  show ?case by simp
next
  case (Cons x xs)
  obtain a b v where x: "x = (a, b, v)" by (cases x)
  have p2: "\<forall>y \<in> set (overlapping ts te xs). fst y < fst (snd y)"
    using Cons.prems by (simp add: overlapping_def)
  show ?case
  proof (cases "a < te \<and> b \<ge> ts")
    case True
    with Cons.prems x have ab: "a < b" by (simp add: overlapping_def)
    from True ab assms have ov: "overlap ts te x = min te b - max ts a"
      using overlap_pass [where a = a and b = b and ts = ts and te = te and v = v] x by simp
    with True x Cons.IH [OF p2] show ?thesis by (simp add: add_divide_distrib)
  next
    case False
    then have ov: "overlap ts te x = 0" using overlap_skip [where a = a and b = b and ts = ts and te = te and v = v] x by simp
    with False x Cons.IH [OF p2] show ?thesis by auto
  qed
qed

lemma overlap_filter:
  "(\<Sum>x\<leftarrow>overlapping ts te xs. overlap ts te x) = (\<Sum>x\<leftarrow>xs. overlap ts te x)"
proof (induction xs)
  case Nil
  show ?case by (simp add: overlapping_def)
next
  case (Cons x xs)
  obtain a b v where x: "x = (a, b, v)" by (cases x)
  show ?case
  proof (cases "a < te \<and> b \<ge> ts")
    case True
    with Cons.IH x show ?thesis by (simp add: overlapping_def)
  next
    case False
    then have "overlap ts te x = 0" using overlap_skip [where a = a and b = b and ts = ts and te = te and v = v] x by simp
    with False Cons.IH x show ?thesis by (auto simp: overlapping_def)
  qed
qed

lemma sum_insort:
  "(\<Sum>y\<leftarrow>insort_key f x xs. g y) = g x + (\<Sum>y\<leftarrow>xs. (g y :: real))"
  by (induction xs) auto

lemma sum_sort: "(\<Sum>y\<leftarrow>sort_key f xs. g y) = (\<Sum>y\<leftarrow>xs. (g y :: real))"
  by (induction xs) (auto simp: sum_insort)

lemma apart_symD: "apart x y \<Longrightarrow> apart y x"
  by (auto simp: apart_def)

lemma non_overlapping_insort:
  "non_overlapping (insort_key f x xs) \<longleftrightarrow>
     fst x < fst (snd x) \<and> (\<forall>y \<in> set xs. apart x y) \<and> non_overlapping xs"
  by (induction xs) (auto simp: set_insort_key dest: apart_symD)

lemma non_overlapping_sort: "non_overlapping (sort_key f xs) \<longleftrightarrow> non_overlapping xs"
  by (induction xs) (auto simp: non_overlapping_insort)

lemma non_overlapping_positive: "non_overlapping xs \<Longrightarrow> x \<in> set xs \<Longrightarrow> fst x < fst (snd x)"
  by (induction xs) auto

lemma sorted_chain:
  "sorted (map fst xs) \<Longrightarrow> non_overlapping xs \<Longrightarrow> sorted_wrt (\<lambda>x y. fst (snd x) \<le> fst y) xs"
proof (induction xs)
  case Nil
  show ?case by simp
next
  case (Cons x xs)
  have "\<forall>y \<in> set xs. fst (snd x) \<le> fst y"
  proof
    fix y assume y: "y \<in> set xs"
    with Cons.prems have "fst x \<le> fst y" "apart x y" by auto
    moreover from Cons.prems y have "fst y < fst (snd y)"
      using non_overlapping_positive [of xs y] by simp
    ultimately show "fst (snd x) \<le> fst y" by (auto simp: apart_def)
  qed
  with Cons show ?case by simp
qed

lemma sweep:
  "sorted_wrt (\<lambda>x y. fst (snd x) \<le> fst y) xs \<Longrightarrow> \<forall>x \<in> set xs. fst x < fst (snd x) \<Longrightarrow>
     (\<Sum>x\<leftarrow>xs. overlap cur te x) + uncovered cur te xs = max 0 (te - cur)"
proof (induction xs arbitrary: cur)
  case Nil
  show ?case by simp
next
  case (Cons x xs)
  let ?c = "max cur (fst (snd x))"
  have same: "(\<Sum>y\<leftarrow>xs. overlap cur te y) = (\<Sum>y\<leftarrow>xs. overlap ?c te y)"
  proof -
    have "\<forall>y \<in> set xs. overlap cur te y = overlap ?c te y"
    proof
      fix y assume "y \<in> set xs"
      with Cons.prems(1) have "fst (snd x) \<le> fst y" by simp
      then have "max ?c (fst y) = max cur (fst y)" by (simp add: max_def)
      then show "overlap cur te y = overlap ?c te y"
        unfolding overlap_def by simp
    qed
    then have "map (overlap cur te) xs = map (overlap ?c te) xs" by simp
    then show ?thesis by (rule arg_cong [where f = sum_list])
  qed
  from Cons.prems have ih: "(\<Sum>y\<leftarrow>xs. overlap ?c te y) + uncovered ?c te xs = max 0 (te - ?c)"
    using Cons.IH [of ?c] by simp
  from Cons.prems(2) have pos: "fst x < fst (snd x)" by simp
  have step: "overlap cur te x + max 0 (min te (fst x) - cur) + max 0 (te - ?c) = max 0 (te - cur)"
    using pos by (simp add: overlap_def min_def max_def)
  have "(\<Sum>y\<leftarrow>(x # xs). overlap cur te y) + uncovered cur te (x # xs)
      = overlap cur te x + max 0 (min te (fst x) - cur)
        + ((\<Sum>y\<leftarrow>xs. overlap ?c te y) + uncovered ?c te xs)"
    using same by simp
  also have "\<dots> = max 0 (te - cur)" using ih step by simp
  finally show ?case .
qed

lemma covered_length:
  assumes "ts < te" and "non_overlapping (overlapping ts te xs)"
  shows "(\<Sum>x\<leftarrow>xs. overlap ts te x) = (te - ts) - uncovered ts te (sort_key fst (overlapping ts te xs))"
proof -
  let ?zs = "sort_key fst (overlapping ts te xs)"
  have no: "non_overlapping ?zs" using assms(2) by (simp add: non_overlapping_sort)
  have ch: "sorted_wrt (\<lambda>x y. fst (snd x) \<le> fst y) ?zs"
    using sorted_chain [OF _ no] by simp
  have pos: "\<forall>x \<in> set ?zs. fst x < fst (snd x)"
    using non_overlapping_positive [OF no] by blast
  from sweep [OF ch pos, of ts te] assms(1)
  have "(\<Sum>x\<leftarrow>?zs. overlap ts te x) = (te - ts) - uncovered ts te ?zs" by simp
  then show ?thesis by (simp add: sum_sort overlap_filter)
qed


lemma sum_list_divide: "(\<Sum>x\<leftarrow>xs. g x / (c::real)) = (\<Sum>x\<leftarrow>xs. g x) / c"
  by (induction xs) (simp_all add: add_divide_distrib)

lemma overlapping_positive:
  "non_overlapping (overlapping ts te xs) \<Longrightarrow> \<forall>x \<in> set (overlapping ts te xs). fst x < fst (snd x)"
  using non_overlapping_positive by blast

lemma resample_sum:
  assumes "ts < te" and "xs \<noteq> []" and "\<forall>x \<in> set xs. length (snd (snd x)) = n"
    and "\<forall>x \<in> set (overlapping ts te xs). fst x < fst (snd x)"
  shows "resample (ts, te) (Some xs) =
           Inr (ts, te, map (\<lambda>k. (\<Sum>x\<leftarrow>xs. snd (snd x) ! k * overlap ts te x) / (te - ts)) [0..<n])"
proof -
  from assms(2) obtain a b v r where xs: "xs = (a, b, v) # r" by (cases xs) auto
  with assms(3) have fl: "first_len (Some xs) = Inr n" by (simp add: first_len_def)
  have l: "length (np_zeros n) = n" by (simp add: np_zeros_def)
  from assms(3) l have d: "\<forall>x \<in> set xs. length (snd (snd x)) = length (np_zeros n)" by simp
  have "accumulate ts te (te - ts) xs (np_zeros n) =
       Inr (map (\<lambda>k. np_zeros n ! k + (\<Sum>x\<leftarrow>xs. snd (snd x) ! k * overlap ts te x / (te - ts)))
              [0..<length (np_zeros n)])"
    by (rule accumulate_sum [OF assms(1) d assms(4)])
  also have "\<dots> = Inr (map (\<lambda>k. (\<Sum>x\<leftarrow>xs. snd (snd x) ! k * overlap ts te x) / (te - ts)) [0..<n])"
    by (simp add: np_zeros_def sum_list_divide)
  finally show ?thesis using fl by (simp add: resample_def)
qed

lemma resample_unit:
  assumes "ts < te" and "xs \<noteq> []"
    and "\<forall>x \<in> set (overlapping ts te xs). fst x < fst (snd x)"
  shows "resample (ts, te) (Some (unit_values xs)) =
           Inr (ts, te, [(\<Sum>x\<leftarrow>xs. overlap ts te x) / (te - ts)])"
proof -
  have ne: "unit_values xs \<noteq> []" using assms(2) by (simp add: unit_values_def)
  have d: "\<forall>x \<in> set (unit_values xs). length (snd (snd x)) = 1" by (auto simp: unit_values_def)
  have p: "\<forall>x \<in> set (overlapping ts te (unit_values xs)). fst x < fst (snd x)"
  proof
    fix y assume "y \<in> set (overlapping ts te (unit_values xs))"
    then obtain x where x: "x \<in> set xs" and y: "y = (fst x, fst (snd x), [1])"
      and c: "fst y < te \<and> fst (snd y) \<ge> ts"
      by (auto simp: unit_values_def overlapping_def)
    from x c y have "x \<in> set (overlapping ts te xs)" by (simp add: overlapping_def)
    with assms(3) have "fst x < fst (snd x)" by blast
    with y show "fst y < fst (snd y)" by simp
  qed
  have "(\<Sum>x\<leftarrow>unit_values xs. snd (snd x) ! 0 * overlap ts te x) = (\<Sum>x\<leftarrow>xs. overlap ts te x)"
    by (induction xs) (simp_all add: unit_values_def overlap_def)
  with resample_sum [OF assms(1) ne d p] show ?thesis by simp
qed

text \<open>
  C8. Take a grid interval \<open>[ts, te)\<close> with \<open>ts < te\<close> and a stream whose tuples meeting
  the interval have positive duration and do not overlap one another. If, sorted by
  start, they leave the length \<open>(1 - f) * (te - ts)\<close> of the interval uncovered, that
  is, they cover the fraction \<open>f\<close>, then the weights the resampler applies sum to \<open>f\<close>,
  with no renormalisation: on unit values the aligned value is \<open>f\<close> itself. If they
  leave nothing uncovered, the weights sum to 1 and the aligned value is, in every
  component, the mean of the tuples' values weighted by the time each shares with the
  interval.
\<close>

theorem weight_sum_is_coverage:
  "(ts < te \<and> non_overlapping (overlapping ts te xs)
      \<and> uncovered ts te (sort_key fst (overlapping ts te xs)) = (1 - f) * (te - ts)
     \<longrightarrow> sum_list (weights ts te xs) = f
         \<and> (xs \<noteq> [] \<longrightarrow> resample (ts, te) (Some (unit_values xs)) = Inr (ts, te, [f])))
   \<and> (ts < te \<and> non_overlapping (overlapping ts te xs)
      \<and> uncovered ts te (sort_key fst (overlapping ts te xs)) = 0
      \<and> xs \<noteq> [] \<and> (\<forall>x \<in> set xs. length (snd (snd x)) = n)
     \<longrightarrow> sum_list (weights ts te xs) = 1
         \<and> resample (ts, te) (Some xs) =
             Inr (ts, te, map (\<lambda>k. (\<Sum>x\<leftarrow>xs. snd (snd x) ! k * overlap ts te x)
                                     / (\<Sum>x\<leftarrow>xs. overlap ts te x)) [0..<n]))"
proof (intro conjI impI)
  assume a: "ts < te \<and> non_overlapping (overlapping ts te xs)
      \<and> uncovered ts te (sort_key fst (overlapping ts te xs)) = (1 - f) * (te - ts)"
  then have pos: "\<forall>x \<in> set (overlapping ts te xs). fst x < fst (snd x)"
    using overlapping_positive by blast
  from a covered_length [of ts te xs]
  have "(\<Sum>x\<leftarrow>xs. overlap ts te x) = (te - ts) - (1 - f) * (te - ts)" by simp
  then have c: "(\<Sum>x\<leftarrow>xs. overlap ts te x) = f * (te - ts)" by (simp add: algebra_simps)
  from a have nz: "te - ts \<noteq> 0" by simp
  from a weights_sum [OF _ pos] c nz show w: "sum_list (weights ts te xs) = f" by simp
  assume "xs \<noteq> []"
  with a resample_unit [OF _ _ pos] c nz
  show "resample (ts, te) (Some (unit_values xs)) = Inr (ts, te, [f])" by simp
next
  assume a: "ts < te \<and> non_overlapping (overlapping ts te xs)
      \<and> uncovered ts te (sort_key fst (overlapping ts te xs)) = 0
      \<and> xs \<noteq> [] \<and> (\<forall>x \<in> set xs. length (snd (snd x)) = n)"
  then have pos: "\<forall>x \<in> set (overlapping ts te xs). fst x < fst (snd x)"
    using overlapping_positive by blast
  from a covered_length [of ts te xs]
  have c: "(\<Sum>x\<leftarrow>xs. overlap ts te x) = te - ts" by simp
  from a have nz: "te - ts \<noteq> 0" by simp
  from a weights_sum [OF _ pos] c nz show "sum_list (weights ts te xs) = 1" by simp
  from a resample_sum [OF _ _ _ pos, of n] c
  show "resample (ts, te) (Some xs) =
             Inr (ts, te, map (\<lambda>k. (\<Sum>x\<leftarrow>xs. snd (snd x) ! k * overlap ts te x)
                                     / (\<Sum>x\<leftarrow>xs. overlap ts te x)) [0..<n])"
    by simp
qed

theorem weight_sum_is_coverage_witness:
  "non_overlapping (overlapping 0 1 [(3/4, 2, [4]), (0, 1/2, [2])])
   \<and> uncovered 0 1 (sort_key fst (overlapping 0 1 [(3/4, 2, [4]), (0, 1/2, [2])])) = (1 - 3/4) * (1 - 0)
   \<and> sum_list (weights 0 1 [(3/4, 2, [4]), (0, 1/2, [2])]) = 3/4
   \<and> resample (0, 1) (Some (unit_values [(3/4, 2, [4]), (0, 1/2, [2])])) = Inr (0, 1, [3/4])
   \<and> non_overlapping (overlapping 0 1 [(0, 1/2, [2]), (1/2, 3/2, [4]), (3/2, 2, [6])])
   \<and> uncovered 0 1 (sort_key fst (overlapping 0 1 [(0, 1/2, [2]), (1/2, 3/2, [4]), (3/2, 2, [6])])) = 0
   \<and> sum_list (weights 0 1 [(0, 1/2, [2]), (1/2, 3/2, [4]), (3/2, 2, [6])]) = 1
   \<and> resample (0, 1) (Some [(0, 1/2, [2]), (1/2, 3/2, [4]), (3/2, 2, [6])]) = Inr (0, 1, [3])"
proof -
  let ?xs = "[(3/4, 2, [4]), (0, 1/2, [2])] :: feat_tuple list"
  let ?ys = "[(0, 1/2, [2]), (1/2, 3/2, [4]), (3/2, 2, [6])] :: feat_tuple list"
  have h1: "(0::real) < 1 \<and> non_overlapping (overlapping 0 1 ?xs)
      \<and> uncovered 0 1 (sort_key fst (overlapping 0 1 ?xs)) = (1 - 3/4) * (1 - 0)"
    by (simp add: overlapping_def apart_def)
  have h2: "(0::real) < 1 \<and> non_overlapping (overlapping 0 1 ?ys)
      \<and> uncovered 0 1 (sort_key fst (overlapping 0 1 ?ys)) = 0
      \<and> ?ys \<noteq> [] \<and> (\<forall>x \<in> set ?ys. length (snd (snd x)) = 1)"
    by (simp add: overlapping_def apart_def)
  from weight_sum_is_coverage [where ts = 0 and te = 1 and xs = ?xs and f = "3/4"] h1
  have 1: "sum_list (weights 0 1 ?xs) = 3/4
      \<and> resample (0, 1) (Some (unit_values ?xs)) = Inr (0, 1, [3/4])"
    by simp
  from weight_sum_is_coverage [where ts = 0 and te = 1 and xs = ?ys and n = 1] h2
  have 2: "sum_list (weights 0 1 ?ys) = 1
      \<and> resample (0, 1) (Some ?ys) = Inr (0, 1, [3])"
    by (simp add: overlap_def)
  from h1 h2 1 2 show ?thesis by simp
qed

section \<open>The OpenSmile loader\<close>

lemma floats_ok: "map (py_float w) xs = map Some vals \<Longrightarrow> floats w xs = Inr vals"
proof (induction xs arbitrary: vals)
  case Nil
  then show ?case by simp
next
  case (Cons x xs)
  then obtain v vs where "vals = v # vs" "py_float w x = Some v" "map (py_float w) xs = map Some vs"
    by (cases vals) auto
  with Cons.IH [of vs] show ?case by (simp add: bind_e_def float_e_def)
qed

lemmas eval_load = load_opensmile_def load_phonemes_def load_openface_def open_lines_def bind_e_def
  start_time_of_def end_time_of_def float_e_def float_at_def strip_def is_space_def
  interval_row_s_def interval_row_v_def frame_row_s_def frame_row_v_def in_segment_def
  example_world_def

text \<open>
  C10. \<open>load_opensmile\<close> returns \<open>None\<close> whenever \<open>level\<close> is not \<open>'s'\<close>, as when it
  is \<open>'v'\<close>, and the segment does not start at 0. In every other case, on a file with
  at least one line whose last line reads as numbers after its first field, it
  returns one tuple: the segment window (rebased in relative mode) with those numbers
  as the value vector.
\<close>

theorem load_opensmile_cases:
  "(lvl \<noteq> ''s'' \<and> start \<noteq> 0 \<longrightarrow> load_opensmile w filepath start fin tstamps lvl = Inr None)
   \<and> ((lvl = ''s'' \<or> start = 0) \<and> text_files w filepath = Some ls \<and> ls \<noteq> []
       \<and> map (py_float w) (drop 1 (split CHR '','' (strip (last ls)))) = map Some vals
      \<longrightarrow> load_opensmile w filepath start fin tstamps lvl =
            Inr (Some [(if tstamps = ''relative'' then 0 else start,
                        if tstamps = ''relative'' then fin - start else fin, vals)]))"
proof (intro conjI impI)
  assume "lvl \<noteq> ''s'' \<and> start \<noteq> 0"
  then show "load_opensmile w filepath start fin tstamps lvl = Inr None"
    by (simp add: load_opensmile_def)
next
  assume a: "(lvl = ''s'' \<or> start = 0) \<and> text_files w filepath = Some ls \<and> ls \<noteq> []
       \<and> map (py_float w) (drop 1 (split CHR '','' (strip (last ls)))) = map Some vals"
  then have f: "floats w (drop 1 (split CHR '','' (strip (last ls)))) = Inr vals"
    using floats_ok by blast
  from a f show "load_opensmile w filepath start fin tstamps lvl =
            Inr (Some [(if tstamps = ''relative'' then 0 else start,
                        if tstamps = ''relative'' then fin - start else fin, vals)])"
    by (simp add: load_opensmile_def open_lines_def bind_e_def start_time_of_def end_time_of_def)
qed

theorem load_opensmile_cases_witness:
  "load_opensmile example_world ''phonemes.csv'' 1 2 ''absolute'' ''v'' = Inr None
   \<and> load_opensmile example_world ''phonemes.csv'' 1 2 ''relative'' ''s'' = Inr (Some [(0, 1, [1, 2, 5])])
   \<and> load_opensmile example_world ''phonemes.csv'' 0 2 ''absolute'' ''v'' = Inr (Some [(0, 2, [1, 2, 5])])"
proof -
  let ?ls = "[''AH,0,0.5,5'', ''B,0.5,1,2'', '''', ''C,1,2,5'']"
  have h: "text_files example_world ''phonemes.csv'' = Some ?ls \<and> ?ls \<noteq> []
      \<and> map (py_float example_world) (drop 1 (split CHR '','' (strip (last ?ls)))) = map Some [1, 2, 5]"
    by (simp add: eval_load)
  from load_opensmile_cases [where w = example_world and filepath = "''phonemes.csv''"
      and start = 1 and fin = 2 and tstamps = "''absolute''" and lvl = "''v''"]
  have 1: "load_opensmile example_world ''phonemes.csv'' 1 2 ''absolute'' ''v'' = Inr None" by simp
  from load_opensmile_cases [where w = example_world and filepath = "''phonemes.csv''"
      and start = 1 and fin = 2 and tstamps = "''relative''" and lvl = "''s''" and ls = ?ls
      and vals = "[1, 2, 5]"] h
  have 2: "load_opensmile example_world ''phonemes.csv'' 1 2 ''relative'' ''s'' = Inr (Some [(0, 1, [1, 2, 5])])"
    by simp
  from load_opensmile_cases [where w = example_world and filepath = "''phonemes.csv''"
      and start = 0 and fin = 2 and tstamps = "''absolute''" and lvl = "''v''" and ls = ?ls
      and vals = "[1, 2, 5]"] h
  have 3: "load_opensmile example_world ''phonemes.csv'' 0 2 ''absolute'' ''v'' = Inr (Some [(0, 2, [1, 2, 5])])"
    by simp
  from 1 2 3 show ?thesis by simp
qed

section \<open>The inclusion rule of the video-level loaders\<close>

lemma scan_lines_filter:
  assumes row: "\<And>cols r. R cols r \<Longrightarrow> row cols = Inr (if P r then Some (g r) else None)"
  shows "list_all2 R (rows_of ls) recs \<Longrightarrow> scan_lines row ls = Inr (map g (filter P recs))"
proof (induction ls arbitrary: recs)
  case Nil
  then show ?case by (simp add: rows_of_def)
next
  case (Cons l ls)
  show ?case
  proof (cases "strip l = []")
    case True
    with Cons.prems show ?thesis by (simp add: rows_of_def)
  next
    case False
    with Cons.prems obtain r rs where recs: "recs = r # rs"
      and r: "R (split CHR '','' (strip l)) r" and rs: "list_all2 R (rows_of ls) rs"
      by (auto simp: rows_of_def list_all2_Cons1)
    from Cons.IH [OF rs] row [OF r] False recs show ?thesis
      by (simp add: bind_e_def)
  qed
qed

lemma in_segment_rule: "in_segment w start fin fs fe = inclusion_rule (fl w) start fin fs fe"
  by (simp add: in_segment_def inclusion_rule_def Let_def)

lemma interval_row_v_holds:
  "holds_interval w i j k cols r \<Longrightarrow>
     interval_row_v w i j k start fin st cols =
       Inr (if inclusion_rule (fl w) start fin (fst r) (fst (snd r))
            then Some (rebase start st r) else None)"
  by (simp add: holds_interval_def interval_row_v_def float_at_def float_e_def bind_e_def
      floats_ok in_segment_rule rebase_def)

lemma frame_row_v_holds:
  "holds_frame w i k cols r \<Longrightarrow>
     frame_row_v w i (\<lambda>f. floats w (drop k f)) tp start fin st cols =
       Inr (if start \<le> fst r \<and> fst r < fin then Some (rebase_frame tp start st r) else None)"
  by (simp add: holds_frame_def frame_row_v_def float_at_def float_e_def bind_e_def floats_ok
      Let_def rebase_frame_def)

lemma load_interval_v_rule:
  assumes "text_files w filepath = Some ls" and "list_all2 (holds_interval w i j k) (rows_of ls) recs"
  shows "bind_e (open_lines w filepath) (\<lambda>ls.
           bind_e (scan_lines (interval_row_v w i j k start fin st) ls) (\<lambda>features. Inr (Some features)))
         = Inr (Some (map (rebase start st)
                  (filter (\<lambda>r. inclusion_rule (fl w) start fin (fst r) (fst (snd r))) recs)))"
proof -
  have "scan_lines (interval_row_v w i j k start fin st) ls
      = Inr (map (rebase start st)
               (filter (\<lambda>r. inclusion_rule (fl w) start fin (fst r) (fst (snd r))) recs))"
    by (rule scan_lines_filter [OF _ assms(2)]) (rule interval_row_v_holds)
  with assms(1) show ?thesis by (simp add: open_lines_def bind_e_def)
qed

lemma load_frame_v:
  assumes "text_files w filepath = Some ls" and "list_all2 (holds_frame w i k) (rows_of (drop 1 ls)) frs"
  shows "bind_e (open_lines w filepath) (\<lambda>ls.
           bind_e (scan_lines (frame_row_v w i (\<lambda>f. floats w (drop k f)) tp start fin st) (drop 1 ls))
             (\<lambda>features. Inr (Some features)))
         = Inr (Some (map (rebase_frame tp start st)
                  (filter (\<lambda>r. start \<le> fst r \<and> fst r < fin) frs)))"
proof -
  have "scan_lines (frame_row_v w i (\<lambda>f. floats w (drop k f)) tp start fin st) (drop 1 ls)
      = Inr (map (rebase_frame tp start st) (filter (\<lambda>r. start \<le> fst r \<and> fst r < fin) frs))"
    by (rule scan_lines_filter [OF _ assms(2)]) (rule frame_row_v_holds)
  with assms(1) show ?thesis by (simp add: open_lines_def bind_e_def)
qed

text \<open>
  C2, as the code has it. At video level (any level other than \<open>'s'\<close>)
  \<open>load_phonemes\<close>, \<open>load_embeddings\<close>, \<open>load_words\<close> and \<open>load_misc\<close> return, rebased,
  exactly the records before the first blank line for which one of the four clauses
  holds, the duration, its half and the two distances from the window bounds being
  the doubles the program computes. Where those four operations are exact, the test
  of the program is the rule over the exact values. \<open>load_openface\<close> follows another
  rule: it returns the frames whose time lies in \<open>[start, end)\<close>. An interval whose
  duration \<open>d\<close> and half duration are computed exactly and whose midpoint is the
  window start is excluded when it ends no later than the window; one whose midpoint
  is the window end is excluded when it starts after the window start.
\<close>

theorem video_level_inclusion:
  "(lvl \<noteq> ''s'' \<and> text_files w filepath = Some ls
      \<and> list_all2 (holds_interval w 1 2 3) (rows_of ls) recs
     \<longrightarrow> load_phonemes w filepath start fin tstamps lvl =
           Inr (Some (map (rebase start (start_time_of tstamps start))
                  (filter (\<lambda>r. inclusion_rule (fl w) start fin (fst r) (fst (snd r))) recs)))
         \<and> load_embeddings w filepath start fin tstamps lvl = load_phonemes w filepath start fin tstamps lvl
         \<and> load_words w filepath start fin tstamps lvl = load_phonemes w filepath start fin tstamps lvl)
   \<and> (lvl \<noteq> ''s'' \<and> text_files w filepath = Some ls
      \<and> list_all2 (holds_interval w 0 1 3) (rows_of ls) recs
     \<longrightarrow> load_misc w filepath start fin tstamps lvl =
           Inr (Some (map (rebase start (start_time_of tstamps start))
                  (filter (\<lambda>r. inclusion_rule (fl w) start fin (fst r) (fst (snd r))) recs))))
   \<and> (lvl \<noteq> ''s'' \<and> text_files w filepath = Some ls
      \<and> list_all2 (holds_frame w 1 2) (rows_of (drop 1 ls)) frs
     \<longrightarrow> load_openface w filepath start fin tstamps lvl =
           Inr (Some (map (rebase_frame (333333 / 10000000) start (start_time_of tstamps start))
                  (filter (\<lambda>r. start \<le> fst r \<and> fst r < fin) frs))))
   \<and> (fl w (fe - fs) = fe - fs \<and> fl w ((fe - fs) / 2) = (fe - fs) / 2
      \<and> fl w (start - fs) = start - fs \<and> fl w (fin - fs) = fin - fs
     \<longrightarrow> in_segment w start fin fs fe = inclusion_rule (\<lambda>x. x) start fin fs fe)
   \<and> (0 < d \<and> fe - fs = d \<and> start - fs = d / 2 \<and> fe \<le> fin \<and> fl w d = d \<and> fl w (d / 2) = d / 2
     \<longrightarrow> \<not> in_segment w start fin fs fe)
   \<and> (0 < d \<and> fe - fs = d \<and> fin - fs = d / 2 \<and> start < fs \<and> fl w d = d \<and> fl w (d / 2) = d / 2
     \<longrightarrow> \<not> in_segment w start fin fs fe)"
proof (intro conjI impI)
  assume a: "lvl \<noteq> ''s'' \<and> text_files w filepath = Some ls
      \<and> list_all2 (holds_interval w 1 2 3) (rows_of ls) recs"
  then show "load_phonemes w filepath start fin tstamps lvl =
           Inr (Some (map (rebase start (start_time_of tstamps start))
                  (filter (\<lambda>r. inclusion_rule (fl w) start fin (fst r) (fst (snd r))) recs)))"
    using load_interval_v_rule [of w filepath ls 1 2 3 recs start fin "start_time_of tstamps start"]
    by (simp add: load_phonemes_def)
  from a show "load_embeddings w filepath start fin tstamps lvl = load_phonemes w filepath start fin tstamps lvl"
    by (simp add: load_embeddings_def load_phonemes_def)
  from a show "load_words w filepath start fin tstamps lvl = load_phonemes w filepath start fin tstamps lvl"
    by (simp add: load_words_def load_phonemes_def)
next
  assume "lvl \<noteq> ''s'' \<and> text_files w filepath = Some ls
      \<and> list_all2 (holds_interval w 0 1 3) (rows_of ls) recs"
  then show "load_misc w filepath start fin tstamps lvl =
           Inr (Some (map (rebase start (start_time_of tstamps start))
                  (filter (\<lambda>r. inclusion_rule (fl w) start fin (fst r) (fst (snd r))) recs)))"
    using load_interval_v_rule [of w filepath ls 0 1 3 recs start fin "start_time_of tstamps start"]
    by (simp add: load_misc_def)
next
  assume "lvl \<noteq> ''s'' \<and> text_files w filepath = Some ls
      \<and> list_all2 (holds_frame w 1 2) (rows_of (drop 1 ls)) frs"
  then show "load_openface w filepath start fin tstamps lvl =
           Inr (Some (map (rebase_frame (333333 / 10000000) start (start_time_of tstamps start))
                  (filter (\<lambda>r. start \<le> fst r \<and> fst r < fin) frs)))"
    using load_frame_v [of w filepath ls 1 2 frs "333333 / 10000000" start fin "start_time_of tstamps start"]
    by (simp add: load_openface_def)
next
  assume "fl w (fe - fs) = fe - fs \<and> fl w ((fe - fs) / 2) = (fe - fs) / 2
      \<and> fl w (start - fs) = start - fs \<and> fl w (fin - fs) = fin - fs"
  then have e: "fl w (fe - fs) = fe - fs" "fl w ((fe - fs) / 2) = (fe - fs) / 2"
    "fl w (start - fs) = start - fs" "fl w (fin - fs) = fin - fs"
    by blast+
  show "in_segment w start fin fs fe = inclusion_rule (\<lambda>x. x) start fin fs fe"
    unfolding in_segment_def inclusion_rule_def Let_def e by (rule refl)
next
  assume a: "0 < d \<and> fe - fs = d \<and> start - fs = d / 2 \<and> fe \<le> fin \<and> fl w d = d \<and> fl w (d / 2) = d / 2"
  then have d: "fe - fs = d" and h: "start - fs = d / 2" by blast+
  from a have e: "fl w d = d" "fl w (d / 2) = d / 2" by blast+
  from a have o: "\<not> start \<le> fs" "\<not> fin < fe" by auto
  show "\<not> in_segment w start fin fs fe"
    unfolding in_segment_def Let_def d h e using o by simp
next
  assume a: "0 < d \<and> fe - fs = d \<and> fin - fs = d / 2 \<and> start < fs \<and> fl w d = d \<and> fl w (d / 2) = d / 2"
  then have d: "fe - fs = d" and h: "fin - fs = d / 2" by blast+
  from a have e: "fl w d = d" "fl w (d / 2) = d / 2" by blast+
  from a have o: "\<not> fs \<le> start" "\<not> fe < fin" by auto
  show "\<not> in_segment w start fin fs fe"
    unfolding in_segment_def Let_def d h e using o by simp
qed

theorem video_level_inclusion_witness:
  "load_phonemes example_world ''phonemes.csv'' (1/2) 1 ''relative'' ''v'' = Inr (Some [(0, 1/2, [2])])
   \<and> load_words example_world ''phonemes.csv'' (1/2) 1 ''relative'' ''v'' = Inr (Some [(0, 1/2, [2])])
   \<and> load_misc example_world ''target2.csv'' 0 2 ''absolute'' ''v'' = Inr (Some [(0, 1, [])])
   \<and> load_openface example_world ''openface.csv'' 0 1 ''relative'' ''v''
       = Inr (Some [(63/64, 63/64 + 333333/10000000, [5])])
   \<and> in_segment example_world (1/2) 1 (1/2) 1 = inclusion_rule (\<lambda>x. x) (1/2) 1 (1/2) 1
   \<and> \<not> in_segment example_world 0 1 (- 1 / 2) (1 / 2)
   \<and> \<not> in_segment example_world 0 1 (1 / 2) (3 / 2)"
proof -
  let ?ph = "[''AH,0,0.5,5'', ''B,0.5,1,2'', '''', ''C,1,2,5'']"
  let ?recs = "[(0, 1/2, [5]), (1/2, 1, [2])] :: feat_tuple list"
  let ?of = "[''frame,time,x'', ''1,0.984375,5'', ''2,1,2'']"
  let ?frs = "[(63/64, [5]), (1, [2])] :: (real \<times> real list) list"
  have r1: "rows_of ?ph = [[''AH'', ''0'', ''0.5'', ''5''], [''B'', ''0.5'', ''1'', ''2'']]"
    by (simp add: rows_of_def strip_def is_space_def)
  have h1: "''v'' \<noteq> ''s'' \<and> text_files example_world ''phonemes.csv'' = Some ?ph
      \<and> list_all2 (holds_interval example_world 1 2 3) (rows_of ?ph) ?recs"
    unfolding r1 by (simp add: holds_interval_def example_world_def)
  have r2: "rows_of [''0,1,5''] = [[''0'', ''1'', ''5'']]"
    by (simp add: rows_of_def strip_def is_space_def)
  have h2: "''v'' \<noteq> ''s'' \<and> text_files example_world ''target2.csv'' = Some [''0,1,5'']
      \<and> list_all2 (holds_interval example_world 0 1 3) (rows_of [''0,1,5'']) [(0, 1, [])]"
    unfolding r2 by (simp add: holds_interval_def example_world_def)
  have r3: "rows_of (drop 1 ?of) = [[''1'', ''0.984375'', ''5''], [''2'', ''1'', ''2'']]"
    by (simp add: rows_of_def strip_def is_space_def)
  have h3: "''v'' \<noteq> ''s'' \<and> text_files example_world ''openface.csv'' = Some ?of
      \<and> list_all2 (holds_frame example_world 1 2) (rows_of (drop 1 ?of)) ?frs"
    unfolding r3 by (simp add: holds_frame_def example_world_def)
  have x: "fl example_world (1 / 2) = 1 / 2" "fl example_world (1 / 4) = 1 / 4"
    "fl example_world 0 = 0" "fl example_world 1 = 1"
    by (simp_all add: example_world_def)
  note t1 = video_level_inclusion [where w = example_world and lvl = "''v''"
      and filepath = "''phonemes.csv''" and ls = ?ph and recs = ?recs and start = "1/2" and fin = 1
      and tstamps = "''relative''", THEN conjunct1]
  from t1 h1 x
  have 1: "load_phonemes example_world ''phonemes.csv'' (1/2) 1 ''relative'' ''v'' = Inr (Some [(0, 1/2, [2])])
      \<and> load_words example_world ''phonemes.csv'' (1/2) 1 ''relative'' ''v'' = Inr (Some [(0, 1/2, [2])])"
    by (simp add: inclusion_rule_def rebase_def start_time_of_def)
  note t2 = video_level_inclusion [where w = example_world and lvl = "''v''"
      and filepath = "''target2.csv''" and ls = "[''0,1,5'']" and recs = "[(0, 1, [])]" and start = 0
      and fin = 2 and tstamps = "''absolute''", THEN conjunct2, THEN conjunct1]
  from t2 h2
  have 2: "load_misc example_world ''target2.csv'' 0 2 ''absolute'' ''v'' = Inr (Some [(0, 1, [])])"
    by (simp add: inclusion_rule_def rebase_def start_time_of_def)
  note t3 = video_level_inclusion [where w = example_world and lvl = "''v''"
      and filepath = "''openface.csv''" and ls = ?of and frs = ?frs and start = 0
      and fin = 1 and tstamps = "''relative''", THEN conjunct2, THEN conjunct2, THEN conjunct1]
  from t3 h3
  have 3: "load_openface example_world ''openface.csv'' 0 1 ''relative'' ''v''
       = Inr (Some [(63/64, 63/64 + 333333/10000000, [5])])"
    by (simp add: rebase_frame_def start_time_of_def)
  note t4 = video_level_inclusion [where w = example_world and start = "1/2" and fin = 1
      and fs = "1/2" and fe = 1,
      THEN conjunct2, THEN conjunct2, THEN conjunct2, THEN conjunct1]
  from t4 x
  have 4: "in_segment example_world (1/2) 1 (1/2) 1 = inclusion_rule (\<lambda>x. x) (1/2) 1 (1/2) 1"
    by simp
  note t5 = video_level_inclusion [where w = example_world and start = 0 and fin = 1
      and fs = "- 1 / 2" and fe = "1 / 2" and d = 1,
      THEN conjunct2, THEN conjunct2, THEN conjunct2, THEN conjunct2, THEN conjunct1]
  from t5 x have 5: "\<not> in_segment example_world 0 1 (- 1 / 2) (1 / 2)"
    by simp
  note t6 = video_level_inclusion [where w = example_world and start = 0 and fin = 1
      and fs = "1 / 2" and fe = "3 / 2" and d = 1,
      THEN conjunct2, THEN conjunct2, THEN conjunct2, THEN conjunct2, THEN conjunct2]
  from t6 x have 6: "\<not> in_segment example_world 0 1 (1 / 2) (3 / 2)"
    by simp
  from 1 2 3 4 5 6 show ?thesis by simp
qed

text \<open>
  The statement of the specification fails in four ways. \<open>load_openface\<close> returns a
  frame that no clause admits. \<open>load_phonemes\<close> returns an interval that the window
  start splits in half and that reaches past the window end. It returns the interval
  written \<open>0.2, 0.4\<close> for a window start written \<open>0.3\<close>, the doubles of these numbers
  not being split in half. And for the window from \<open>1e16\<close> to \<open>3e16\<close> it leaves out the
  interval from \<open>0.1\<close> to \<open>2e16\<close>, which the third clause admits over the exact values:
  both sides of the comparison round to \<open>1e16\<close>.
\<close>

theorem inclusion_counterexample:
  "load_openface example_world ''openface.csv'' 0 1 ''absolute'' ''v''
     = Inr (Some [(63/64, 63/64 + 333333/10000000, [5])])
   \<and> \<not> inclusion_rule (\<lambda>x. x) 0 1 (63/64) (63/64 + 333333/10000000)
   \<and> load_phonemes example_world ''wide.csv'' 0 1 ''absolute'' ''v'' = Inr (Some [(-2, 2, [5])])
   \<and> load_phonemes example_world ''tenths.csv'' (5404319552844595 / 18014398509481984) 1 ''relative'' ''v''
       = Inr (Some [(3602879701896397 / 18014398509481984 - 5404319552844595 / 18014398509481984,
                     3602879701896397 / 9007199254740992 - 5404319552844595 / 18014398509481984, [5])])
   \<and> load_phonemes example_world ''long.csv'' 10000000000000000 30000000000000000 ''absolute'' ''v''
       = Inr (Some [])
   \<and> inclusion_rule (\<lambda>x. x) 10000000000000000 30000000000000000
        (3602879701896397 / 36028797018963968) 20000000000000000"
  by (simp add: eval_load inclusion_rule_def)

lemma example_time_period: "fl example_world (1 / 100) = 5764607523034235 / 576460752303423488"
  by (simp add: example_world_def)

lemma example_start_quotient: "fl example_world (5224175567749775 / 18014398509481984 / (5764607523034235 / 576460752303423488))
   = 8162774324609023 / 281474976710656"
  by (simp add: example_world_def)

lemma example_end_quotient: "fl example_world (5584463537939415 / 18014398509481984 / (5764607523034235 / 576460752303423488))
   = 31"
  by (simp add: example_world_def)

lemma example_start_index: "py_trunc (8162774324609023 / 281474976710656) = 28"
  by (simp add: py_trunc_def)

lemma example_end_index: "py_trunc 31 = 31"
  by (simp add: py_trunc_def)

lemma example_slice: "py_slice 28 31 [[0], [1], [2], [3], [4], [5], [6], [7], [8], [9],
                            [10], [11], [12], [13], [14], [15], [16], [17], [18], [19],
                            [20], [21], [22], [23], [24], [25], [26], [27], [28], [29],
                            [30], [31], [32::real]] = [[28], [29], [30]]"
  by (simp add: py_slice_def slice_bound_def)

lemma example_mat_file: "mat_files example_world ''covarep.mat'' = Some [[0], [1], [2], [3], [4], [5], [6], [7], [8], [9],
                            [10], [11], [12], [13], [14], [15], [16], [17], [18], [19],
                            [20], [21], [22], [23], [24], [25], [26], [27], [28], [29],
                            [30], [31], [32]]"
  by (simp add: example_world_def)

text \<open>
  \<open>load_covarep\<close> at video level on a file of 33 rows, for the segment from \<open>0.29\<close> to
  \<open>0.31\<close>: the quotient \<open>0.29 / 0.01\<close> is the double just below 29, so the rows start at
  row 28.
\<close>

lemma load_covarep_rounds_down:
  "load_covarep example_world ''covarep.mat'' (5224175567749775 / 18014398509481984)
      (5584463537939415 / 18014398509481984) ''relative'' ''v''
     = Inr (Some [(0, 5764607523034235 / 576460752303423488, [28]),
                  (5764607523034235 / 576460752303423488,
                   2 * (5764607523034235 / 576460752303423488), [29]),
                  (2 * (5764607523034235 / 576460752303423488),
                   3 * (5764607523034235 / 576460752303423488), [30])])"
  unfolding load_covarep_def Let_def example_time_period example_mat_file
    example_start_quotient example_end_quotient
  by (simp add: example_start_index example_end_index example_slice start_time_of_def)

section \<open>Duplicate segments in the manifest\<close>

lemma validate_record_cases:
  assumes "cell record 0 = Inr v" and "cell record 1 = Inr s"
  shows "validate_record w mc record info = (r, info') \<Longrightarrow>
     (registered info v s \<longrightarrow> r = Some NameError)
     \<and> (r = None \<longrightarrow> registered info' v s)"
  using assms
  by (auto simp: validate_record_def registered_def Let_def update_conv'
      split: option.splits sum.splits if_splits)

lemma validate_record_mono:
  "validate_record w mc record info = (None, info') \<Longrightarrow> registered info v s \<Longrightarrow> registered info' v s"
  by (auto simp: validate_record_def registered_def Let_def update_conv'
      split: option.splits sum.splits if_splits)

lemma cell_ok: "i < length record \<Longrightarrow> cell record i = Inr (record ! i)"
  by (simp add: cell_def)

lemma validate_records_registered:
  "registered info v s \<Longrightarrow> record \<in> set records \<Longrightarrow> 2 \<le> length record \<Longrightarrow>
     record ! 0 = v \<Longrightarrow> record ! 1 = s \<Longrightarrow>
     \<exists>e. fst (validate_records w mc records info) = Some e"
proof (induction records arbitrary: info)
  case Nil
  then show ?case by simp
next
  case (Cons r records)
  obtain x info' where x: "validate_record w mc r info = (x, info')"
    by (cases "validate_record w mc r info")
  show ?case
  proof (cases x)
    case (Some e)
    with x show ?thesis by simp
  next
    case None
    have "r \<noteq> record"
    proof
      assume "r = record"
      with Cons.prems have "cell r 0 = Inr v" "cell r 1 = Inr s" by (auto simp: cell_def)
      from validate_record_cases [OF this x] Cons.prems(1) None show False by simp
    qed
    with Cons.prems(2) have m: "record \<in> set records" by simp
    from x None have "registered info' v s" using validate_record_mono [OF _ Cons.prems(1)] by simp
    from Cons.IH [OF this m Cons.prems(3,4,5)] x None show ?thesis by simp
  qed
qed

lemma validate_records_duplicate:
  "i < j \<Longrightarrow> j < length records \<Longrightarrow> 2 \<le> length (records ! i) \<Longrightarrow> 2 \<le> length (records ! j) \<Longrightarrow>
     records ! i ! 0 = records ! j ! 0 \<Longrightarrow> records ! i ! 1 = records ! j ! 1 \<Longrightarrow>
     \<exists>e. fst (validate_records w mc records info) = Some e"
proof (induction records arbitrary: i j info)
  case Nil
  then show ?case by simp
next
  case (Cons r records)
  obtain x info' where x: "validate_record w mc r info = (x, info')"
    by (cases "validate_record w mc r info")
  from Cons.prems(1) obtain j' where j: "j = Suc j'" by (cases j) auto
  show ?case
  proof (cases x)
    case (Some e)
    with x show ?thesis by simp
  next
    case None
    show ?thesis
    proof (cases i)
      case 0
      with Cons.prems have c: "cell r 0 = Inr (r ! 0)" "cell r 1 = Inr (r ! 1)"
        by (auto simp: cell_def)
      from validate_record_cases [OF c x] None have reg: "registered info' (r ! 0) (r ! 1)" by simp
      from Cons.prems j have m: "records ! j' \<in> set records" by simp
      from Cons.prems 0 j have "2 \<le> length (records ! j')" "records ! j' ! 0 = r ! 0" "records ! j' ! 1 = r ! 1"
        by simp_all
      from validate_records_registered [OF reg m this] x None show ?thesis by simp
    next
      case (Suc i')
      with Cons.prems j have "i' < j'" "j' < length records" "2 \<le> length (records ! i')"
        "2 \<le> length (records ! j')" "records ! i' ! 0 = records ! j' ! 0"
        "records ! i' ! 1 = records ! j' ! 1" by simp_all
      from Cons.IH [OF this] x None show ?thesis by simp
    qed
  qed
qed

lemma files_loop_ok:
  "\<forall>i \<in> set is. i + 4 < length record \<Longrightarrow> \<exists>f. files_loop record is files = Inr f"
  by (induction "is" arbitrary: files) (simp_all add: bind_e_def cell_def)

lemma validate_record_wf:
  assumes "wf_record w mc record"
  shows "fst (validate_record w mc record info) = None \<or> fst (validate_record w mc record info) = Some NameError"
proof -
  from assms have l: "4 + mc \<le> length record" by (simp add: wf_record_def)
  then have "\<forall>i \<in> set [0..<mc]. i + 4 < length record" by auto
  from files_loop_ok [OF this] obtain f where f: "files_loop record [0..<mc] [] = Inr f" by blast
  from assms obtain a b where "py_float w (record ! 2) = Some a" "py_float w (record ! 3) = Some b"
    by (auto simp: wf_record_def)
  moreover from l have "record \<noteq> []" "Suc 0 < length record" "2 < length record" "3 < length record"
    by auto
  ultimately show ?thesis using f
    by (simp add: validate_record_def cell_def float_at_def float_e_def bind_e_def Let_def)
qed

lemma validate_records_wf:
  "\<forall>r \<in> set records. wf_record w mc r \<Longrightarrow>
     fst (validate_records w mc records info) = None \<or> fst (validate_records w mc records info) = Some NameError"
proof (induction records arbitrary: info)
  case Nil
  then show ?case by simp
next
  case (Cons r records)
  obtain x info' where x: "validate_record w mc r info = (x, info')"
    by (cases "validate_record w mc r info")
  from Cons.prems validate_record_wf [of w mc r info] x
  have c: "x = None \<or> x = Some NameError" by simp
  from Cons.prems have "\<forall>r \<in> set records. wf_record w mc r" by simp
  from Cons.IH [OF this, of info'] x c show ?case by auto
qed

lemma modalities_loop_ok:
  "2 \<le> length data \<Longrightarrow> \<forall>i \<in> set is. i + 4 < length (data ! 0) \<and> i + 4 < length (data ! 1) \<Longrightarrow>
     fst (modalities_loop data is mods) = None"
  by (induction "is" arbitrary: mods) (simp_all add: cell_def)

text \<open>
  C6. When two records of the manifest share the video and segment cells,
  \<open>controller\<close> raises and no loader has been invoked: \<open>validate_file\<close> fails before
  \<open>load_features\<close> starts. When the header rows fit and every record is well formed,
  the exception is the \<open>NameError\<close> of line 85.
\<close>

theorem duplicate_segment_raises:
  "i < j \<and> j < length records \<and> 2 \<le> length (records ! i) \<and> 2 \<le> length (records ! j)
     \<and> records ! i ! 0 = records ! j ! 0 \<and> records ! i ! 1 = records ! j ! 1
   \<longrightarrow> (\<exists>e ds'. controller w (h0 # h1 # records) ds = (Inl e, ds', []))
       \<and> (length h0 \<le> length h1 \<and> (\<forall>r \<in> set records. wf_record w (length h0 - 4) r)
          \<longrightarrow> (\<exists>ds'. controller w (h0 # h1 # records) ds = (Inl NameError, ds', [])))"
proof (intro impI conjI)
  assume a: "i < j \<and> j < length records \<and> 2 \<le> length (records ! i) \<and> 2 \<le> length (records ! j)
     \<and> records ! i ! 0 = records ! j ! 0 \<and> records ! i ! 1 = records ! j ! 1"
  let ?mc = "length h0 - 4"
  from a validate_records_duplicate [of i j records w ?mc "[]"]
  obtain e where e: "fst (validate_records w ?mc records []) = Some e" by blast
  obtain x mods where m: "modalities_loop (h0 # h1 # records) [0..<?mc] [] = (x, mods)"
    by (cases "modalities_loop (h0 # h1 # records) [0..<?mc] []")
  obtain y info where v: "validate_records w ?mc records [] = (y, info)"
    by (cases "validate_records w ?mc records []")
  with e have y: "y = Some e" by simp
  show "\<exists>e ds'. controller w (h0 # h1 # records) ds = (Inl e, ds', [])"
    using m v y by (cases x) (simp_all add: controller_def validate_file_def)
  assume b: "length h0 \<le> length h1 \<and> (\<forall>r \<in> set records. wf_record w ?mc r)"
  then have "\<forall>i \<in> set [0..<?mc]. i + 4 < length ((h0 # h1 # records) ! 0)
      \<and> i + 4 < length ((h0 # h1 # records) ! 1)" by auto
  from modalities_loop_ok [OF _ this, of "[]"] m have x: "x = None" by simp
  from b validate_records_wf [of records w ?mc "[]"] v y have "e = NameError" by auto
  with m v y x show "\<exists>ds'. controller w (h0 # h1 # records) ds = (Inl NameError, ds', [])"
    by (simp add: controller_def validate_file_def)
qed

theorem duplicate_segment_raises_witness:
  "(\<exists>e ds'. controller example_world duplicate_manifest (new_dataset ''absolute'') = (Inl e, ds', []))
   \<and> (\<exists>ds'. controller example_world duplicate_manifest (new_dataset ''absolute'')
          = (Inl NameError, ds', []))"
proof -
  let ?h0 = "[''0'', ''1'', ''2'', ''3'', ''words'', ''misc'']"
  let ?h1 = "[''x'', ''x'', ''x'', ''x'', ''s'', ''s'']"
  let ?records = "[[''v'', ''2'', ''0'', ''1'', ''pivot2.csv'', ''target2.csv''],
      [''v'', ''3'', ''1'', ''2'', ''pivot3.csv'', ''target3.csv''],
      [''v'', ''2'', ''1'', ''2'', ''pivot3.csv'', ''target3.csv'']]"
  have d: "duplicate_manifest = ?h0 # ?h1 # ?records" by (simp add: duplicate_manifest_def)
  have h: "(0::nat) < 2 \<and> 2 < length ?records \<and> 2 \<le> length (?records ! 0) \<and> 2 \<le> length (?records ! 2)
     \<and> ?records ! 0 ! 0 = ?records ! 2 ! 0 \<and> ?records ! 0 ! 1 = ?records ! 2 ! 1"
    by simp
  have k: "length ?h0 \<le> length ?h1 \<and> (\<forall>r \<in> set ?records. wf_record example_world (length ?h0 - 4) r)"
    by (simp add: wf_record_def example_world_def)
  from duplicate_segment_raises [where i = 0 and j = 2 and records = ?records and ?h0.0 = ?h0
      and ?h1.0 = ?h1 and w = example_world and ds = "new_dataset ''absolute''"] h k
  show ?thesis unfolding d by blast
qed

section \<open>Relative and absolute timestamps under the fallback\<close>

lemmas eval_controller = load_def controller_def validate_file_def validate_record_def
  load_features_def loader_method_def load_words_def load_misc_def new_dataset_def
  example_manifest_def cell_def modality_key_def

lemma example_load_absolute:
  "fst (snd (load example_world example_manifest (new_dataset ''absolute''))) =
     \<lparr>timestamps = ''absolute'',
      feature_dict = Some
        [(''modality_0'', [(''v'', [(''2'', Some [(0, 1, [1])]), (''3'', Some [(1, 2, [1])])])]),
         (''modality_1'', [(''v'', [(''2'', Some [(0, 1, [5])]), (''3'', Some [])])])],
      modalities = Some [(''modality_0'', \<lparr>level = ''s'', api_type = ''words''\<rparr>),
                         (''modality_1'', \<lparr>level = ''s'', api_type = ''misc''\<rparr>)],
      dataset_info = Some [(''v'', [(''2'', \<lparr>seg_start = 0, seg_end = 1,
            seg_files = [(''modality_0'', ''pivot2.csv''), (''modality_1'', ''target2.csv'')]\<rparr>),
          (''3'', \<lparr>seg_start = 1, seg_end = 2,
            seg_files = [(''modality_0'', ''pivot3.csv''), (''modality_1'', ''target3.csv'')]\<rparr>)])],
      aligned_feature_dict = None\<rparr>"
  by (simp add: eval_controller eval_load eval_align)

lemma example_load_relative:
  "fst (snd (load example_world example_manifest (new_dataset ''relative''))) =
     \<lparr>timestamps = ''relative'',
      feature_dict = Some
        [(''modality_0'', [(''v'', [(''2'', Some [(0, 1, [1])]), (''3'', Some [(0, 1, [1])])])]),
         (''modality_1'', [(''v'', [(''2'', Some [(0, 1, [5])]), (''3'', Some [])])])],
      modalities = Some [(''modality_0'', \<lparr>level = ''s'', api_type = ''words''\<rparr>),
                         (''modality_1'', \<lparr>level = ''s'', api_type = ''misc''\<rparr>)],
      dataset_info = Some [(''v'', [(''2'', \<lparr>seg_start = 0, seg_end = 1,
            seg_files = [(''modality_0'', ''pivot2.csv''), (''modality_1'', ''target2.csv'')]\<rparr>),
          (''3'', \<lparr>seg_start = 1, seg_end = 2,
            seg_files = [(''modality_0'', ''pivot3.csv''), (''modality_1'', ''target3.csv'')]\<rparr>)])],
      aligned_feature_dict = None\<rparr>"
  by (simp add: eval_controller eval_load eval_align)

text \<open>
  C7. The program run on a manifest of one video with segment \<open>2\<close> from 0 to 1 and
  segment \<open>3\<close> from 1 to 2, two segment-level modalities, and an empty file for the
  second modality at segment \<open>3\<close>. In both modes \<open>align\<close> prints for segment \<open>3\<close> the
  line of line 724, which announces zeros, and takes the stream of segment \<open>2\<close>. In
  absolute mode that stream lies before the grid of segment \<open>3\<close> and the aligned value
  is 0 on \<open>(1, 2)\<close>; in relative mode both are rebased to 0 and the aligned value is 5
  on \<open>(0, 1)\<close>. The boundaries differ by the segment start, the values are not
  identical. Every number involved is a small integer, exact as a double.
\<close>

theorem fallback_modes_differ:
  "fst (align (fst (snd (load example_world example_manifest (new_dataset ''absolute'')))) ''modality_0'')
     = Inr [(''modality_1'', [(''v'', [(''2'', [(0, 1, [5])]), (''3'', [(1, 2, [0])])])])]
   \<and> fst (snd (align (fst (snd (load example_world example_manifest (new_dataset ''absolute''))))
        ''modality_0'')) = [(''1'', ''v'', ''3'')]
   \<and> fst (align (fst (snd (load example_world example_manifest (new_dataset ''relative'')))) ''modality_0'')
     = Inr [(''modality_1'', [(''v'', [(''2'', [(0, 1, [5])]), (''3'', [(0, 1, [5])])])])]
   \<and> fst (snd (align (fst (snd (load example_world example_manifest (new_dataset ''relative''))))
        ''modality_0'')) = [(''1'', ''v'', ''3'')]"
  unfolding example_load_absolute example_load_relative
  by (simp add: eval_align)

end
